theory Spec2Isabelle
  imports Complex_Main "HOL-Library.Multiset"
begin

section \<open>Chest X-ray classification: the predictor CLI and the training script\<close>

text \<open>
  A shallow embedding of \<^verbatim>\<open>predict.py\<close> and of the parts of
  \<^verbatim>\<open>train_model.py\<close> that are the repository's own code. The deep-learning
  framework, the image library and the operating system are collaborators: their calls
  appear as fields of an environment record, and every call that can raise returns a sum
  with the exception on the left.

  The raw score of the network is a \<^verbatim>\<open>float32\<close> in the source. It is modelled by
  the real number it denotes: the comparison with \<^verbatim>\<open>0.5\<close> is exact on floats, and
  \<^verbatim>\<open>1 - prediction\<close> is the single-precision difference, the exact difference
  rounded to the nearest \<^verbatim>\<open>float32\<close>.
\<close>

subsection \<open>Data\<close>

type_synonym path = string

text \<open>
  Python exceptions raised by the library calls, with their message (\<^verbatim>\<open>str(e)\<close>).
  Every value stands for an instance of a subclass of \<^verbatim>\<open>Exception\<close>.
\<close>

datatype error = FileNotFoundError string | OtherError string

fun str_of_error :: "error \<Rightarrow> string" where
  "str_of_error (FileNotFoundError msg) = msg"
| "str_of_error (OtherError msg) = msg"

text \<open>A decoded RGB raster: rows of pixels, each channel a byte.\<close>

type_synonym image = "(nat \<times> nat \<times> nat) list list"

text \<open>A batch of images as a nested array, indexed batch, row, column, channel.\<close>

type_synonym tensor = "real list list list list"

text \<open>
  A loaded model is its inference entry point: \<^verbatim>\<open>model.predict(x, verbose=0)[0][0]\<close>.
\<close>

type_synonym model = "tensor \<Rightarrow> error + real"

text \<open>What a path names in the file system; a directory carries what listing it gives.\<close>

datatype node = File | Dir "error + string list" | Other

record env =
  fs :: "path \<Rightarrow> node option"
  keras_load_model :: "path \<Rightarrow> error + model"
  image_open_rgb :: "path \<Rightarrow> error + image"
  image_resize :: "nat \<times> nat \<Rightarrow> image \<Rightarrow> image"

text \<open>
  The segments of a formatted line: literal text, an integer, a number printed with
  \<^verbatim>\<open>:.2%\<close>, a number printed with \<^verbatim>\<open>:.4f\<close>, and a number printed with
  \<^verbatim>\<open>:.2f\<close>.
\<close>

datatype piece = Str string | Num nat | Pct real | Fix4 real | Fix2 real

text \<open>
  What a run does that can be observed from outside: a printed line, a call of
  \<^verbatim>\<open>keras.models.load_model\<close>, a call of \<^verbatim>\<open>model.predict\<close>, and a figure
  shown with its title (diagnosis, confidence) and title colour.
\<close>

datatype event =
    Print "piece list"
  | KerasLoad path
  | ModelPredict tensor
  | ShowFigure string real string

text \<open>A computation: it raises or returns, and leaves the events it produced until then.\<close>

type_synonym 'a run = "(error + 'a) \<times> event list"

definition ret :: "'a \<Rightarrow> 'a run" where
  "ret x = (Inr x, [])"

definition raise :: "error \<Rightarrow> 'a run" where
  "raise e = (Inl e, [])"

definition emit :: "event list \<Rightarrow> unit run" where
  "emit evs = (Inr (), evs)"

definition call :: "error + 'a \<Rightarrow> 'a run" where
  "call r = (r, [])"

fun bind :: "'a run \<Rightarrow> ('a \<Rightarrow> 'b run) \<Rightarrow> 'b run" where
  "bind (Inl e, out) f = (Inl e, out)"
| "bind (Inr x, out) f = (case f x of (r, out') \<Rightarrow> (r, out @ out'))"

subsection \<open>Single-precision arithmetic\<close>

text \<open>
  An operation on \<^verbatim>\<open>float32\<close> values gives the exact result rounded to the nearest
  \<^verbatim>\<open>float32\<close>, a tie going to the neighbour with the even significand. A
  \<^verbatim>\<open>float32\<close> has 24 significant bits: from \<^verbatim>\<open>2^e\<close> up to \<^verbatim>\<open>2^(e+1)\<close> the
  values are \<^verbatim>\<open>2^(e-23)\<close> apart, for \<^verbatim>\<open>e\<close> from -126 to 127, and below
  \<^verbatim>\<open>2^(-126)\<close> the spacing stays \<^verbatim>\<open>2^(-149)\<close>. Infinities, NaN and overflow are
  left out: the difference \<^verbatim>\<open>1 - prediction\<close> of a finite \<^verbatim>\<open>float32\<close> does not
  overflow.
\<close>

definition round_half_even :: "real \<Rightarrow> int" where
  "round_half_even y =
     (let f = \<lfloor>y\<rfloor>; d = y - of_int f
      in if d < 1 / 2 then f
         else if d > 1 / 2 then f + 1
         else if even f then f else f + 1)"

text \<open>
  The binade of a magnitude \<open>a\<close>: the largest \<open>k\<close> up to the bound with
  \<^verbatim>\<open>2^(k-126)\<close> at most \<open>a\<close>, and 0 when there is none.
\<close>

fun float32_exponent :: "nat \<Rightarrow> real \<Rightarrow> nat" where
  "float32_exponent 0 a = 0"
| "float32_exponent (Suc k) a =
     (if 2 ^ Suc k / 2 ^ 126 \<le> a then Suc k else float32_exponent k a)"

definition float32_ulp :: "real \<Rightarrow> real" where
  "float32_ulp x = 2 ^ float32_exponent 253 \<bar>x\<bar> / 2 ^ 149"

definition float32_round :: "real \<Rightarrow> real" where
  "float32_round x = of_int (round_half_even (x / float32_ulp x)) * float32_ulp x"

definition float32_sub :: "real \<Rightarrow> real \<Rightarrow> real" where
  "float32_sub a b = float32_round (a - b)"

definition is_float32 :: "real \<Rightarrow> bool" where
  "is_float32 x \<longleftrightarrow> \<bar>x\<bar> < 2 ^ 128 \<and> float32_round x = x"

subsection \<open>Constants of \<^verbatim>\<open>predict.py\<close>\<close>

definition IMG_SIZE :: nat where
  "IMG_SIZE = 150"

definition MODEL_PATH :: path where
  "MODEL_PATH = ''best_model.keras''"

subsection \<open>\<^verbatim>\<open>load_model\<close>\<close>

definition path_exists :: "env \<Rightarrow> path \<Rightarrow> bool" where
  "path_exists E p \<longleftrightarrow> fs E p \<noteq> None"

definition load_model :: "env \<Rightarrow> path \<Rightarrow> model run" where
  "load_model E model_path =
     (if \<not> path_exists E model_path
      then raise (FileNotFoundError (''Model not found: '' @ model_path))
      else bind (emit [Print [Str ''Loading model from '', Str model_path, Str ''...''],
                       KerasLoad model_path])
             (\<lambda>_. bind (call (keras_load_model E model_path))
               (\<lambda>m. bind (emit [Print [Str ''Model loaded successfully!'']])
                 (\<lambda>_. ret m))))"

subsection \<open>\<^verbatim>\<open>preprocess_image\<close>\<close>

definition normalize_pixels :: "image \<Rightarrow> real list list list" where
  "normalize_pixels img =
     map (map (\<lambda>(r, g, b). [real r / 255.0, real g / 255.0, real b / 255.0])) img"

definition preprocess_image :: "env \<Rightarrow> path \<Rightarrow> (tensor \<times> image) run" where
  "preprocess_image E image_path =
     bind (call (image_open_rgb E image_path))
       (\<lambda>img0. let img = image_resize E (IMG_SIZE, IMG_SIZE) img0;
                   img_array = normalize_pixels img;
                   img_array = [img_array]
               in ret (img_array, img))"

subsection \<open>\<^verbatim>\<open>predict_image\<close>\<close>

text \<open>
  The thresholding step: diagnosis, confidence and title colour from the raw score. The
  raw score is a \<^verbatim>\<open>float32\<close> scalar, and so is its difference from 1.
\<close>

definition interpret_prediction :: "real \<Rightarrow> string \<times> real \<times> string" where
  "interpret_prediction prediction =
     (if prediction > 0.5 then (''PNEUMONIA'', prediction, ''red'')
      else (''NORMAL'', float32_sub 1 prediction, ''green''))"

definition predict_image :: "env \<Rightarrow> model \<Rightarrow> path \<Rightarrow> bool \<Rightarrow> (string \<times> real \<times> real) run" where
  "predict_image E m image_path show =
     bind (preprocess_image E image_path)
       (\<lambda>(img_array, original_img).
          bind (emit [ModelPredict img_array])
            (\<lambda>_. bind (call (m img_array))
              (\<lambda>prediction.
                 case interpret_prediction prediction of (diagnosis, confidence, color) \<Rightarrow>
                   bind (emit [Print [Str (CHR 0x0A # ''Prediction Results:'')],
                               Print [Str ''  Diagnosis: '', Str diagnosis],
                               Print [Str ''  Confidence: '', Pct confidence],
                               Print [Str ''  Raw Score: '', Fix4 prediction]])
                     (\<lambda>_. bind (emit (if show then [ShowFigure diagnosis confidence color]
                                      else []))
                       (\<lambda>_. ret (diagnosis, confidence, prediction))))))"

subsection \<open>String and path helpers of the standard library\<close>

text \<open>
  \<^verbatim>\<open>str.lower\<close> on the ASCII letters; the other bytes are left as they are. No character
  outside ASCII lowers to one of the characters of the three extensions.
\<close>

definition lower_char :: "char \<Rightarrow> char" where
  "lower_char c =
     (case map_of (zip ''ABCDEFGHIJKLMNOPQRSTUVWXYZ'' ''abcdefghijklmnopqrstuvwxyz'') c of
        Some d \<Rightarrow> d
      | None \<Rightarrow> c)"

definition lower :: "string \<Rightarrow> string" where
  "lower s = map lower_char s"

definition endswith :: "string \<Rightarrow> string \<Rightarrow> bool" where
  "endswith s suffix \<longleftrightarrow> take (length suffix) (rev s) = rev suffix"

text \<open>\<^verbatim>\<open>os.path.join\<close> and \<^verbatim>\<open>os.path.basename\<close> of \<^verbatim>\<open>posixpath\<close>.\<close>

definition join :: "path \<Rightarrow> string \<Rightarrow> path" where
  "join a b =
     (if take 1 b = ''/'' then b
      else if a = [] \<or> endswith a ''/'' then a @ b
      else a @ ''/'' @ b)"

definition basename :: "path \<Rightarrow> string" where
  "basename p = rev (takeWhile (\<lambda>c. c \<noteq> CHR ''/'') (rev p))"

definition isdir :: "env \<Rightarrow> path \<Rightarrow> bool" where
  "isdir E p \<longleftrightarrow> (case fs E p of Some (Dir _) \<Rightarrow> True | _ \<Rightarrow> False)"

definition isfile :: "env \<Rightarrow> path \<Rightarrow> bool" where
  "isfile E p \<longleftrightarrow> (case fs E p of Some File \<Rightarrow> True | _ \<Rightarrow> False)"

definition listdir :: "env \<Rightarrow> path \<Rightarrow> error + string list" where
  "listdir E p =
     (case fs E p of
        Some (Dir r) \<Rightarrow> r
      | Some _ \<Rightarrow> Inl (OtherError (''[Errno 20] Not a directory: '' @ p))
      | None \<Rightarrow> Inl (FileNotFoundError (''[Errno 2] No such file or directory: '' @ p)))"

subsection \<open>\<^verbatim>\<open>predict_batch\<close>\<close>

record prediction_result =
  image :: string
  diagnosis :: string
  confidence :: real
  raw_score :: real

text \<open>\<^verbatim>\<open>try: body except Exception as e: handler(e)\<close>\<close>

fun try_except :: "'a run \<Rightarrow> (error \<Rightarrow> 'a run) \<Rightarrow> 'a run" where
  "try_except (Inr x, out) h = (Inr x, out)"
| "try_except (Inl e, out) h = (case h e of (r, out') \<Rightarrow> (r, out @ out'))"

text \<open>The body of the loop for the \<open>i\<close>-th image; it returns the new \<^verbatim>\<open>results\<close>.\<close>

definition predict_batch_step ::
  "env \<Rightarrow> model \<Rightarrow> nat \<Rightarrow> nat \<Rightarrow> path \<Rightarrow> prediction_result list
     \<Rightarrow> prediction_result list run" where
  "predict_batch_step E m n i img_path results =
     bind (emit [Print [Str ''['', Num i, Str ''/'', Num n, Str ''] '', Str (basename img_path)]])
       (\<lambda>_. try_except
          (bind (predict_image E m img_path False)
             (\<lambda>(d, c, raw).
                bind (emit [Print [Str ([CHR 0x20, CHR 0x20, CHR 0xE2, CHR 0x86, CHR 0x92, CHR 0x20]),
                                   Str d, Str '' ('', Pct c, Str '')'']])
                  (\<lambda>_. ret (results @ [\<lparr>image = basename img_path, diagnosis = d,
                                           confidence = c, raw_score = raw\<rparr>]))))
          (\<lambda>e. bind (emit [Print [Str ''  Error: '', Str (str_of_error e)]])
                  (\<lambda>_. ret results)))"

fun predict_batch_loop ::
  "env \<Rightarrow> model \<Rightarrow> nat \<Rightarrow> nat \<Rightarrow> path list \<Rightarrow> prediction_result list
     \<Rightarrow> prediction_result list run" where
  "predict_batch_loop E m n i [] results = (Inr results, [])"
| "predict_batch_loop E m n i (img_path # rest) results =
     (case predict_batch_step E m n i img_path results of
        (Inl e, out) \<Rightarrow> (Inl e, out)
      | (Inr results', out) \<Rightarrow>
          (case predict_batch_loop E m n (i + 1) rest results' of
             (r, out') \<Rightarrow> (r, out @ out')))"

definition count_diagnosis :: "string \<Rightarrow> prediction_result list \<Rightarrow> nat" where
  "count_diagnosis d results = length (filter (\<lambda>r. diagnosis r = d) results)"

definition predict_batch :: "env \<Rightarrow> model \<Rightarrow> path list \<Rightarrow> prediction_result list run" where
  "predict_batch E m image_paths =
     bind (emit [Print [Str (CHR 0x0A # ''Processing ''), Num (length image_paths),
                        Str ('' images...'' @ [CHR 0x0A])]])
       (\<lambda>_. bind (predict_batch_loop E m (length image_paths) 1 image_paths [])
         (\<lambda>results.
            let normal = count_diagnosis ''NORMAL'' results;
                pneumonia = count_diagnosis ''PNEUMONIA'' results
            in bind (emit [Print [Str (CHR 0x0A # ''Summary:'')],
                           Print [Str ''  Normal: '', Num normal],
                           Print [Str ''  Pneumonia: '', Num pneumonia]])
                 (\<lambda>_. ret results)))"

subsection \<open>\<^verbatim>\<open>main\<close>\<close>

text \<open>
  The parsed command line: the positional arguments (at least one), the value of
  \<^verbatim>\<open>--model\<close> when it is given, and the flag \<^verbatim>\<open>--no-show\<close>.
\<close>

record args =
  images :: "path list"
  model_arg :: "path option"
  no_show :: bool

definition args_model :: "args \<Rightarrow> path" where
  "args_model a = (case model_arg a of None \<Rightarrow> MODEL_PATH | Some p \<Rightarrow> p)"

definition image_exts :: "string list" where
  "image_exts = [''.jpg'', ''.jpeg'', ''.png'']"

text \<open>The inner loop over the extensions, for one directory argument.\<close>

fun extend_from_dir :: "env \<Rightarrow> path \<Rightarrow> string list \<Rightarrow> path list \<Rightarrow> error + path list" where
  "extend_from_dir E path [] image_paths = Inr image_paths"
| "extend_from_dir E path (ext # exts) image_paths =
     (case listdir E path of
        Inl e \<Rightarrow> Inl e
      | Inr names \<Rightarrow>
          extend_from_dir E path exts
            (image_paths @ map (join path) (filter (\<lambda>f. endswith (lower f) ext) names)))"

text \<open>The outer loop over the path arguments.\<close>

fun collect_image_paths :: "env \<Rightarrow> path list \<Rightarrow> path list \<Rightarrow> error + path list" where
  "collect_image_paths E [] image_paths = Inr image_paths"
| "collect_image_paths E (path # rest) image_paths =
     (if isdir E path then
        (case extend_from_dir E path image_exts image_paths of
           Inl e \<Rightarrow> Inl e
         | Inr image_paths' \<Rightarrow> collect_image_paths E rest image_paths')
      else if isfile E path then collect_image_paths E rest (image_paths @ [path])
      else collect_image_paths E rest image_paths)"

definition main :: "env \<Rightarrow> args \<Rightarrow> unit run" where
  "main E a =
     bind (load_model E (args_model a))
       (\<lambda>m. bind (call (collect_image_paths E (images a) []))
         (\<lambda>image_paths.
            if image_paths = [] then emit [Print [Str ''No valid images found!'']]
            else if length image_paths = 1
              then bind (predict_image E m (image_paths ! 0) (\<not> no_show a)) (\<lambda>_. ret ())
              else bind (predict_batch E m image_paths) (\<lambda>_. ret ())))"

text \<open>
  The script itself: with no argument on the command line it prints the usage banner,
  otherwise it calls \<^verbatim>\<open>main\<close>. Nothing catches what \<^verbatim>\<open>main\<close> raises, so an
  exception of \<^verbatim>\<open>main\<close> ends the process.
\<close>

definition usage_banner :: "event list" where
  "usage_banner =
     [Print [Str ''Chest X-Ray Pneumonia Prediction''],
      Print [Str (replicate 50 CHR ''='')],
      Print [Str (CHR 0x0A # ''Usage:'')],
      Print [Str ''  Single image:''],
      Print [Str ''    python3 predict.py path/to/image.jpg''],
      Print [Str (CHR 0x0A # ''  Multiple images:'')],
      Print [Str ''    python3 predict.py img1.jpg img2.jpg''],
      Print [Str (CHR 0x0A # ''  Directory:'')],
      Print [Str ''    python3 predict.py path/to/images/''],
      Print [Str (CHR 0x0A # ''Options:'')],
      Print [Str ''  --model PATH    Model file (default: best_model.keras)''],
      Print [Str ''  --no-show       Don't display images'']]"

definition script :: "env \<Rightarrow> args option \<Rightarrow> unit run" where
  "script E argv = (case argv of None \<Rightarrow> emit usage_banner | Some a \<Rightarrow> main E a)"

subsection \<open>The sample grid of \<^verbatim>\<open>train_model.py\<close>\<close>

definition predicted_class :: "real \<Rightarrow> int" where
  "predicted_class p = (if p > 0.5 then 1 else 0)"

definition pred_label :: "real \<Rightarrow> string" where
  "pred_label p = (if predicted_class p = 1 then ''Pneumonia'' else ''Normal'')"

definition grid_confidence :: "real \<Rightarrow> real" where
  "grid_confidence p = (if predicted_class p = 1 then p else float32_sub 1 p)"

text \<open>
  The title of a cell of the grid and its colour, from the true label and the raw score
  of the image.
\<close>

definition true_label :: "real \<Rightarrow> string" where
  "true_label l = (if l = 1 then ''Pneumonia'' else ''Normal'')"

definition grid_title :: "real \<Rightarrow> real \<Rightarrow> piece list \<times> string" where
  "grid_title l p =
     (let color = (if true_label l = pred_label p then ''green'' else ''red'')
      in ([Str ''True: '', Str (true_label l), Str (CHR 0x0A # ''Pred: ''), Str (pred_label p),
           Str (CHR 0x0A # ''Conf: ''), Fix2 (grid_confidence p)], color))"

subsection \<open>\<^verbatim>\<open>create_model\<close>\<close>

text \<open>
  The layer constructors of the framework with the arguments the script passes:
  \<^verbatim>\<open>Conv2D(filters, kernel_size, activation, input_shape)\<close>,
  \<^verbatim>\<open>MaxPooling2D(pool_size)\<close>, \<^verbatim>\<open>Dropout(rate)\<close>,
  \<^verbatim>\<open>Dense(units, activation)\<close>.
\<close>

datatype layer =
    Conv2D nat "nat \<times> nat" string "(nat \<times> nat \<times> nat) option"
  | BatchNormalization
  | MaxPooling2D "nat \<times> nat"
  | Flatten
  | Dropout real
  | Dense nat string

definition create_model :: "layer list" where
  "create_model =
     [Conv2D 32 (3, 3) ''relu'' (Some (IMG_SIZE, IMG_SIZE, 3)),
      BatchNormalization,
      MaxPooling2D (2, 2),
      Conv2D 64 (3, 3) ''relu'' None,
      BatchNormalization,
      MaxPooling2D (2, 2),
      Conv2D 128 (3, 3) ''relu'' None,
      BatchNormalization,
      MaxPooling2D (2, 2),
      Conv2D 128 (3, 3) ''relu'' None,
      BatchNormalization,
      MaxPooling2D (2, 2),
      Flatten,
      Dropout 0.5,
      Dense 512 ''relu'',
      Dropout 0.3,
      Dense 1 ''sigmoid'']"

text \<open>
  The topology in the words of the specification: a block is convolution, batch
  normalisation, max pooling; four blocks, then the classifier head.
\<close>

datatype spec_layer =
    Convolution nat "nat \<times> nat"
  | BatchNormalize
  | MaxPool "nat \<times> nat"
  | SpecFlatten
  | SpecDropout real
  | SpecDense nat string

definition spec_block :: "nat \<Rightarrow> spec_layer list" where
  "spec_block width = [Convolution width (3, 3), BatchNormalize, MaxPool (2, 2)]"

definition spec_topology :: "spec_layer list" where
  "spec_topology =
     concat (map spec_block [32, 64, 128, 128]) @
     [SpecFlatten, SpecDropout 0.5, SpecDense 512 ''rectified-linear'', SpecDropout 0.3,
      SpecDense 1 ''sigmoid'']"

text \<open>
  What the specification says of a layer of the script; the activation of a convolution
  and the input shape are not part of it. \<^verbatim>\<open>'relu'\<close> is the framework's name of the
  rectified-linear activation.
\<close>

definition activation_name :: "string \<Rightarrow> string" where
  "activation_name a = (if a = ''relu'' then ''rectified-linear'' else a)"

fun layer_view :: "layer \<Rightarrow> spec_layer" where
  "layer_view (Conv2D filters kernel_size activation input_shape) = Convolution filters kernel_size"
| "layer_view BatchNormalization = BatchNormalize"
| "layer_view (MaxPooling2D pool_size) = MaxPool pool_size"
| "layer_view Flatten = SpecFlatten"
| "layer_view (Dropout rate) = SpecDropout rate"
| "layer_view (Dense units activation) = SpecDense units (activation_name activation)"

subsection \<open>The training run of \<^verbatim>\<open>train_model.py\<close>\<close>

definition EPOCHS :: nat where
  "EPOCHS = 10"

text \<open>
  The callbacks as the script configures them: \<^verbatim>\<open>EarlyStopping(monitor, patience,
  restore_best_weights)\<close>, \<^verbatim>\<open>ReduceLROnPlateau(monitor, factor, patience, min_lr)\<close>,
  \<^verbatim>\<open>ModelCheckpoint(filepath, monitor, save_best_only)\<close>.
\<close>

datatype callback =
    EarlyStopping string nat bool
  | ReduceLROnPlateau string real nat real
  | ModelCheckpoint string string bool

definition callbacks :: "callback list" where
  "callbacks =
     [EarlyStopping ''val_loss'' 3 True,
      ReduceLROnPlateau ''val_loss'' 0.5 2 (1 / 10 ^ 7),
      ModelCheckpoint ''best_model.keras'' ''val_accuracy'' True]"

text \<open>
  The state of a run of \<^verbatim>\<open>model.fit\<close>: the current parameters, the number of epochs
  run, the validation loss of each of them, and the book-keeping of early stopping.
\<close>

record 'w fit_state =
  weights :: 'w
  epochs_run :: nat
  history :: "real list"
  best :: "real option"
  best_weights :: 'w
  wait :: nat
  stopped :: bool

text \<open>
  Modelled from the spec: the early-stopping policy on the validation loss, which is code
  of the Keras framework (\<^verbatim>\<open>EarlyStopping\<close>) and not of this repository. The
  specification says: if validation loss does not improve for \<open>patience\<close> consecutive
  epochs, halt training and restore the parameters from the best epoch. A loss improves
  when it is below the best loss so far; the first epoch always improves.
\<close>

fun improves :: "real \<Rightarrow> real option \<Rightarrow> bool" where
  "improves l None = True"
| "improves l (Some b) = (l < b)"

text \<open>
  Modelled from the spec: which early-stopping policy a list of callbacks asks for, as
  patience and whether the best parameters are restored; the callbacks that do not
  monitor \<^verbatim>\<open>val_loss\<close> for stopping have no part in it.
\<close>

fun early_stopping_of :: "callback list \<Rightarrow> (nat \<times> bool) option" where
  "early_stopping_of [] = None"
| "early_stopping_of (EarlyStopping monitor patience restore # cbs) =
     (if monitor = ''val_loss'' then Some (patience, restore) else early_stopping_of cbs)"
| "early_stopping_of (cb # cbs) = early_stopping_of cbs"

text \<open>
  Modelled from the spec: the epoch loop of \<^verbatim>\<open>model.fit\<close>, which is code of the Keras
  framework and not of this repository. The specification says: for up to \<open>epochs\<close>
  iterations, run one training pass over all training batches, then one full validation
  pass producing the validation loss; the early-stopping policy observes the validation
  loss each epoch. The training pass is a parameter \<open>train\<close>: it gets the validation
  losses so far (on which the learning rate depends) and the parameters, and returns the
  new parameters. The validation pass is a parameter \<open>val_loss\<close>.
\<close>

fun fit_loop ::
  "(real list \<Rightarrow> 'w \<Rightarrow> 'w) \<Rightarrow> ('w \<Rightarrow> real) \<Rightarrow> (nat \<times> bool) option \<Rightarrow> nat
     \<Rightarrow> 'w fit_state \<Rightarrow> 'w fit_state" where
  "fit_loop train val_loss policy 0 s = s"
| "fit_loop train val_loss policy (Suc remaining) s =
     (let w = train (history s) (weights s);
          l = val_loss w;
          s1 = s\<lparr>weights := w, epochs_run := epochs_run s + 1, history := history s @ [l]\<rparr>;
          s2 = (if improves l (best s)
                then s1\<lparr>best := Some l, best_weights := w, wait := 0\<rparr>
                else s1\<lparr>wait := wait s + 1\<rparr>)
      in case policy of
           None \<Rightarrow> fit_loop train val_loss policy remaining s2
         | Some (patience, restore) \<Rightarrow>
             if wait s2 \<ge> patience
             then s2\<lparr>stopped := True,
                     weights := (if restore then best_weights s2 else weights s2)\<rparr>
             else fit_loop train val_loss policy remaining s2)"

definition fit ::
  "(real list \<Rightarrow> 'w \<Rightarrow> 'w) \<Rightarrow> ('w \<Rightarrow> real) \<Rightarrow> nat \<Rightarrow> callback list \<Rightarrow> 'w \<Rightarrow> 'w fit_state" where
  "fit train val_loss epochs cbs w0 =
     fit_loop train val_loss (early_stopping_of cbs) epochs
       \<lparr>weights = w0, epochs_run = 0, history = [], best = None, best_weights = w0,
        wait = 0, stopped = False\<rparr>"

text \<open>
  The call of the script:
  \<^verbatim>\<open>model.fit(train_generator, epochs=EPOCHS, validation_data=val_generator,
  callbacks=callbacks)\<close>.
\<close>

definition training_run ::
  "(real list \<Rightarrow> 'w \<Rightarrow> 'w) \<Rightarrow> ('w \<Rightarrow> real) \<Rightarrow> 'w \<Rightarrow> 'w fit_state" where
  "training_run train val_loss w0 = fit train val_loss EPOCHS callbacks w0"

text \<open>
  Training that nothing interrupts, for reference: the parameters and the validation
  losses after \<open>k\<close> epochs, and the validation loss of epoch \<open>j\<close> (counted from 0).
\<close>

fun trajectory ::
  "(real list \<Rightarrow> 'w \<Rightarrow> 'w) \<Rightarrow> ('w \<Rightarrow> real) \<Rightarrow> 'w \<Rightarrow> nat \<Rightarrow> 'w \<times> real list" where
  "trajectory train val_loss w0 0 = (w0, [])"
| "trajectory train val_loss w0 (Suc k) =
     (case trajectory train val_loss w0 k of
        (w, h) \<Rightarrow> (train h w, h @ [val_loss (train h w)]))"

definition weights_after :: "(real list \<Rightarrow> 'w \<Rightarrow> 'w) \<Rightarrow> ('w \<Rightarrow> real) \<Rightarrow> 'w \<Rightarrow> nat \<Rightarrow> 'w" where
  "weights_after train val_loss w0 k = fst (trajectory train val_loss w0 k)"

definition loss_of_epoch :: "(real list \<Rightarrow> 'w \<Rightarrow> 'w) \<Rightarrow> ('w \<Rightarrow> real) \<Rightarrow> 'w \<Rightarrow> nat \<Rightarrow> real" where
  "loss_of_epoch train val_loss w0 j = val_loss (weights_after train val_loss w0 (Suc j))"

text \<open>Epoch \<open>j\<close> improves when its validation loss is below that of every earlier epoch.\<close>

definition improves_at :: "(nat \<Rightarrow> real) \<Rightarrow> nat \<Rightarrow> bool" where
  "improves_at loss j \<longleftrightarrow> list_all (\<lambda>i. loss j < loss i) [0..<j]"

text \<open>Epochs \<open>j - 2\<close>, \<open>j - 1\<close> and \<open>j\<close> all fail to improve.\<close>

definition three_without_improvement :: "(nat \<Rightarrow> real) \<Rightarrow> nat \<Rightarrow> bool" where
  "three_without_improvement loss j \<longleftrightarrow>
     2 \<le> j \<and> \<not> improves_at loss (j - 2) \<and> \<not> improves_at loss (j - 1) \<and> \<not> improves_at loss j"

text \<open>
  The invariant of the loop after \<open>k\<close> epochs with patience 3, and what holds of the state
  that a run of at most \<open>n\<close> epochs ends in. \<open>W\<close> and \<open>L\<close> are the parameters and the
  validation losses of uninterrupted training.
\<close>

definition fit_inv :: "(nat \<Rightarrow> 'w) \<Rightarrow> (nat \<Rightarrow> real) \<Rightarrow> nat \<Rightarrow> 'w fit_state \<Rightarrow> bool" where
  "fit_inv W L k s \<longleftrightarrow>
     epochs_run s = k \<and> history s = map L [0..<k] \<and> weights s = W k \<and> \<not> stopped s \<and>
     wait s < 3 \<and> (k = 0 \<longrightarrow> best s = None) \<and>
     (0 < k \<longrightarrow> (\<exists>b<k. wait s = k - 1 - b \<and> best s = Some (L b) \<and>
                    best_weights s = W (Suc b) \<and> (\<forall>i<k. L b \<le> L i) \<and> (\<forall>i<b. L b < L i))) \<and>
     (\<forall>j<k. \<not> three_without_improvement L j)"

definition fit_post :: "(nat \<Rightarrow> 'w) \<Rightarrow> (nat \<Rightarrow> real) \<Rightarrow> nat \<Rightarrow> 'w fit_state \<Rightarrow> bool" where
  "fit_post W L n s \<longleftrightarrow>
     epochs_run s \<le> n \<and> history s = map L [0..<epochs_run s] \<and>
     (\<forall>j<epochs_run s - 1. \<not> three_without_improvement L j) \<and>
     (\<not> stopped s \<longrightarrow> epochs_run s = n \<and> weights s = W n \<and>
        (\<forall>j<n. \<not> three_without_improvement L j)) \<and>
     (stopped s \<longrightarrow> 0 < epochs_run s \<and> three_without_improvement L (epochs_run s - 1) \<and>
        (\<exists>b<epochs_run s. weights s = W (Suc b) \<and> (\<forall>i<epochs_run s. L b \<le> L i) \<and>
           (\<forall>i<b. L b < L i)))"

text \<open>A training pass that counts the epochs, and validation losses read from a list.\<close>

definition demo_train :: "real list \<Rightarrow> nat \<Rightarrow> nat" where
  "demo_train h w = w + 1"

definition demo_losses :: "real list" where
  "demo_losses = [9 / 10, 5 / 10, 6 / 10, 7 / 10, 5 / 10, 4 / 10, 3 / 10]"

definition demo_val_loss :: "nat \<Rightarrow> real" where
  "demo_val_loss w = (if 0 < w \<and> w \<le> length demo_losses then demo_losses ! (w - 1) else 1)"

subsection \<open>Auxiliary notions for the statements about \<^verbatim>\<open>predict.py\<close>\<close>

text \<open>The entry of \<^verbatim>\<open>results\<close> for an image whose prediction succeeds.\<close>

definition batch_entry :: "env \<Rightarrow> model \<Rightarrow> path \<Rightarrow> prediction_result option" where
  "batch_entry E m p =
     (case fst (predict_image E m p False) of
        Inl e \<Rightarrow> None
      | Inr (d, c, raw) \<Rightarrow>
          Some \<lparr>image = basename p, diagnosis = d, confidence = c, raw_score = raw\<rparr>)"

definition succeeds :: "env \<Rightarrow> model \<Rightarrow> path \<Rightarrow> bool" where
  "succeeds E m p \<longleftrightarrow> (case fst (predict_image E m p False) of Inl e \<Rightarrow> False | Inr r \<Rightarrow> True)"

definition progress_line :: "nat \<Rightarrow> nat \<Rightarrow> path \<Rightarrow> event" where
  "progress_line i n p =
     Print [Str ''['', Num i, Str ''/'', Num n, Str ''] '', Str (basename p)]"

definition error_line :: "error \<Rightarrow> event" where
  "error_line e = Print [Str ''  Error: '', Str (str_of_error e)]"

text \<open>A name that ends, case-insensitively, in one of the three extensions.\<close>

definition is_image_name :: "string \<Rightarrow> bool" where
  "is_image_name f \<longleftrightarrow> list_ex (\<lambda>ext. endswith (lower f) ext) image_exts"

definition names_with_ext :: "string \<Rightarrow> string list \<Rightarrow> string list" where
  "names_with_ext ext names = filter (\<lambda>f. endswith (lower f) ext) names"

subsection \<open>Concrete environments\<close>

text \<open>
  A model that answers with the first value of the tensor it is given, and an environment
  with a few files. Its resampler leaves a raster as it is, which keeps the tensors small.
\<close>

definition demo_model :: model where
  "demo_model x =
     (case x of
        (((v # _) # _) # _) # _ \<Rightarrow> Inr v
      | _ \<Rightarrow> Inl (OtherError ''incompatible input shape''))"

definition demo_images :: "(path \<times> image) list" where
  "demo_images =
     [(''scans/a.png'', [[(51, 51, 51)]]),
      (''scans/b.JPG'', [[(204, 204, 204)]]),
      (''half.png'', [[(255, 255, 255), (0, 0, 0)], [(0, 0, 0), (0, 0, 0)]]),
      (''xray.txt'', [[(204, 204, 204)]])]"

definition demo_env :: env where
  "demo_env =
     \<lparr>fs = map_of
        [(''best_model.keras'', File),
         (''scans'', Dir (Inr [''a.png'', ''notes.txt'', ''b.JPG'', ''c.jpeg''])),
         (''scans/a.png'', File), (''scans/notes.txt'', File), (''scans/b.JPG'', File),
         (''scans/c.jpeg'', File), (''half.png'', File), (''notes.txt'', File),
         (''xray.txt'', File),
         (''empty'', Dir (Inr []))],
      keras_load_model = (\<lambda>p. Inr demo_model),
      image_open_rgb =
        (\<lambda>p. case map_of demo_images p of
               Some img \<Rightarrow> Inr img
             | None \<Rightarrow> Inl (OtherError (''cannot identify image file '' @ p))),
      image_resize = (\<lambda>size img. img)\<rparr>"

text \<open>The same file system without the model file.\<close>

definition no_model_env :: env where
  "no_model_env = demo_env\<lparr>fs := (fs demo_env)(''best_model.keras'' := None)\<rparr>"

text \<open>A directory whose listing gives a \<^verbatim>\<open>.png\<close> before a \<^verbatim>\<open>.jpg\<close>.\<close>

definition order_env :: env where
  "order_env = demo_env\<lparr>fs := map_of [(''scans'', Dir (Inr [''a.png'', ''b.jpg'']))]\<rparr>"

section \<open>Theorems\<close>

subsection \<open>Unfolding a run\<close>

lemma bind_pair:
  "bind (r, out) f =
     (case r of Inl e \<Rightarrow> (Inl e, out)
      | Inr x \<Rightarrow> (case f x of (r', out') \<Rightarrow> (r', out @ out')))"
  by (cases r) auto

lemma try_except_pair:
  "try_except (r, out) h =
     (case r of Inr x \<Rightarrow> (Inr x, out)
      | Inl e \<Rightarrow> (case h e of (r', out') \<Rightarrow> (r', out @ out')))"
  by (cases r) auto

lemmas run_defs = bind_pair try_except_pair ret_def raise_def emit_def call_def

subsection \<open>Rounding to single precision\<close>

lemma round_half_even_cases:
  "round_half_even y = \<lfloor>y\<rfloor> \<or> round_half_even y = \<lfloor>y\<rfloor> + 1"
  by (simp add: round_half_even_def Let_def)

lemma round_half_even_ge_floor: "\<lfloor>y\<rfloor> \<le> round_half_even y"
  using round_half_even_cases [of y] by auto

lemma round_half_even_le_ceiling: "round_half_even y \<le> \<lceil>y\<rceil>"
proof (cases "y = of_int \<lfloor>y\<rfloor>")
  case True
  then have "round_half_even y = \<lfloor>y\<rfloor>"
    by (simp add: round_half_even_def Let_def)
  then show ?thesis by simp
next
  case False
  then have "\<lceil>y\<rceil> = \<lfloor>y\<rfloor> + 1"
    by (simp add: ceiling_altdef)
  with round_half_even_cases [of y] show ?thesis by auto
qed

lemma round_half_even_error: "\<bar>of_int (round_half_even y) - y\<bar> \<le> 1 / 2"
proof -
  have "of_int \<lfloor>y\<rfloor> \<le> y" "y < of_int \<lfloor>y\<rfloor> + 1" by linarith+
  then show ?thesis
    by (auto simp: round_half_even_def Let_def abs_le_iff)
qed

lemma power_two_between:
  fixes a c :: real
  assumes "0 < c" and "2 ^ i / c \<le> a" and "a < 2 ^ j / c"
  shows "i < j"
proof -
  from assms(2,3) have "(2::real) ^ i / c < 2 ^ j / c" by linarith
  with assms(1) have "(2::real) ^ i < 2 ^ j" by (simp add: divide_less_cancel)
  then show ?thesis by simp
qed

lemma pos_126: "(0::real) < 2 ^ 126"
  by (rule zero_less_power) simp

lemma float32_exponent_eq:
  "k \<le> n \<Longrightarrow> 2 ^ k / 2 ^ 126 \<le> a \<Longrightarrow> a < 2 ^ Suc k / 2 ^ 126 \<Longrightarrow>
     float32_exponent n a = k"
proof (induction n)
  case 0
  then show ?case by simp
next
  case (Suc n)
  show ?case
  proof (cases "2 ^ Suc n / 2 ^ 126 \<le> a")
    case True
    from power_two_between [OF pos_126 True Suc.prems(3)] Suc.prems(1)
    have "k = Suc n" by simp
    with True show ?thesis by (simp only: float32_exponent.simps if_True)
  next
    case False
    then have "a < 2 ^ Suc n / 2 ^ 126" by simp
    from power_two_between [OF pos_126 Suc.prems(2) this]
    have "k \<le> n" by simp
    from Suc.IH [OF this Suc.prems(2,3)] False
    show ?thesis by (simp only: float32_exponent.simps if_False)
  qed
qed

lemma float32_exponent_le:
  "a < 2 ^ Suc k / 2 ^ 126 \<Longrightarrow> float32_exponent n a \<le> k"
proof (induction n)
  case 0
  then show ?case by simp
next
  case (Suc n)
  show ?case
  proof (cases "2 ^ Suc n / 2 ^ 126 \<le> a")
    case True
    from power_two_between [OF pos_126 True Suc.prems]
    have "Suc n \<le> k" by simp
    with True show ?thesis by (simp only: float32_exponent.simps if_True)
  next
    case False
    from Suc.IH [OF Suc.prems] False
    show ?thesis by (simp only: float32_exponent.simps if_False)
  qed
qed

lemma float32_round_upper_half:
  assumes "1 / 2 \<le> x" and "x < 1"
  shows "float32_round x = of_int (round_half_even (x * 2 ^ 24)) / 2 ^ 24"
proof -
  have "(2::real) ^ 125 / 2 ^ 126 \<le> \<bar>x\<bar>" "\<bar>x\<bar> < 2 ^ Suc 125 / 2 ^ 126"
    using assms by simp_all
  then have "float32_exponent 253 \<bar>x\<bar> = 125"
    by (intro float32_exponent_eq) simp_all
  then have u: "float32_ulp x = 1 / 2 ^ 24"
    by (simp add: float32_ulp_def)
  show ?thesis unfolding float32_round_def u by simp
qed

lemma float32_round_ge_half:
  assumes "1 / 2 \<le> x" and "x < 1"
  shows "1 / 2 \<le> float32_round x"
proof -
  have "(2::real) ^ 23 \<le> x * 2 ^ 24" using assms by simp
  then have "(2::int) ^ 23 \<le> \<lfloor>x * 2 ^ 24\<rfloor>" by (simp add: le_floor_iff)
  with round_half_even_ge_floor [of "x * 2 ^ 24"]
  have "(2::int) ^ 23 \<le> round_half_even (x * 2 ^ 24)" by linarith
  then have "(2::real) ^ 23 \<le> of_int (round_half_even (x * 2 ^ 24))"
    by (metis of_int_le_iff of_int_numeral of_int_power)
  then show ?thesis
    by (simp add: float32_round_upper_half [OF assms])
qed

lemma float32_round_error_upper_half:
  assumes "1 / 2 \<le> x" and "x < 1"
  shows "\<bar>float32_round x - x\<bar> \<le> 1 / 2 ^ 25"
proof -
  define c :: real where "c = 2 ^ 24"
  define r :: real where "r = of_int (round_half_even (x * c))"
  have c: "0 < c" by (simp add: c_def)
  have "\<bar>r - x * c\<bar> \<le> 1 / 2" unfolding r_def by (rule round_half_even_error)
  moreover have "float32_round x = r / c"
    unfolding r_def c_def by (rule float32_round_upper_half [OF assms])
  then have "float32_round x - x = (r - x * c) / c"
    using c by (simp add: field_simps)
  then have "\<bar>float32_round x - x\<bar> = \<bar>r - x * c\<bar> / c"
    using c by simp
  ultimately have "\<bar>float32_round x - x\<bar> \<le> (1 / 2) / c"
    using c by (simp add: field_simps)
  then show ?thesis by (simp add: c_def)
qed

lemma float32_round_le_half:
  assumes "0 \<le> x" and "x < 1 / 2"
  shows "float32_round x \<le> 1 / 2"
proof -
  define k where "k = float32_exponent 253 \<bar>x\<bar>"
  have "\<bar>x\<bar> < 2 ^ Suc 124 / 2 ^ 126" using assms by simp
  then have k: "k \<le> 124" unfolding k_def by (rule float32_exponent_le)
  define u :: real where "u = 2 ^ k / 2 ^ 149"
  have u: "0 < u" by (simp add: u_def)
  have ulp: "float32_ulp x = u" by (simp add: float32_ulp_def u_def k_def)
  have "(2::real) ^ 148 = 2 ^ (148 - k) * 2 ^ k"
    using k by (simp add: power_add [symmetric])
  then have half: "1 / 2 = 2 ^ (148 - k) * u"
    by (simp add: u_def)
  have "x / u \<le> (1 / 2) / u" using assms u by (simp add: field_simps)
  also have "\<dots> = 2 ^ (148 - k)" using u by (simp add: half)
  finally have "x / u \<le> of_int (2 ^ (148 - k))" by simp
  then have "\<lceil>x / u\<rceil> \<le> 2 ^ (148 - k)" by (simp only: ceiling_le_iff)
  with round_half_even_le_ceiling [of "x / u"]
  have "round_half_even (x / u) \<le> 2 ^ (148 - k)" by linarith
  then have "(of_int (round_half_even (x / u)) :: real) \<le> of_int (2 ^ (148 - k))"
    by (simp only: of_int_le_iff)
  then have "of_int (round_half_even (x / u)) * u \<le> 2 ^ (148 - k) * u"
    using u by (simp add: mult_right_mono)
  then show ?thesis by (simp only: float32_round_def ulp half)
qed

lemma float32_exponent_of_fifth:
  "float32_exponent 253 \<bar>13421773 / 67108864\<bar> = 123"
proof -
  have "(2::real) ^ 123 / 2 ^ 126 \<le> \<bar>13421773 / 67108864\<bar>"
    and "\<bar>13421773 / 67108864 :: real\<bar> < 2 ^ Suc 123 / 2 ^ 126"
    by simp_all
  then show ?thesis
    by (intro float32_exponent_eq) simp_all
qed

subsection \<open>Threshold and confidence\<close>

lemma predict_image_run:
  assumes "image_open_rgb E image_path = Inr img0"
    and "m [normalize_pixels (image_resize E (IMG_SIZE, IMG_SIZE) img0)] = Inr p"
  shows "predict_image E m image_path sh =
           (Inr (fst (interpret_prediction p), fst (snd (interpret_prediction p)), p),
            [ModelPredict [normalize_pixels (image_resize E (IMG_SIZE, IMG_SIZE) img0)],
             Print [Str (CHR 0x0A # ''Prediction Results:'')],
             Print [Str ''  Diagnosis: '', Str (fst (interpret_prediction p))],
             Print [Str ''  Confidence: '', Pct (fst (snd (interpret_prediction p)))],
             Print [Str ''  Raw Score: '', Fix4 p]] @
            (if sh
             then [ShowFigure (fst (interpret_prediction p)) (fst (snd (interpret_prediction p)))
                     (snd (snd (interpret_prediction p)))]
             else []))"
  using assms
  by (simp add: predict_image_def preprocess_image_def run_defs Let_def split: prod.splits)

lemma confidence_above_threshold:
  assumes "1 / 2 < p" and "p < 1"
  shows "p = max p (float32_sub 1 p)" and "\<bar>p - max p (1 - p)\<bar> \<le> 1 / 2 ^ 25"
proof -
  from assms have "float32_round (1 - p) \<le> 1 / 2"
    by (intro float32_round_le_half) simp_all
  with assms show "p = max p (float32_sub 1 p)"
    by (simp add: float32_sub_def max_def)
  from assms show "\<bar>p - max p (1 - p)\<bar> \<le> 1 / 2 ^ 25"
    by (simp add: max_def)
qed

lemma confidence_at_most_threshold:
  assumes "0 < p" and "p \<le> 1 / 2"
  shows "float32_sub 1 p = max p (float32_sub 1 p)" and "1 / 2 \<le> float32_sub 1 p"
    and "\<bar>float32_sub 1 p - max p (1 - p)\<bar> \<le> 1 / 2 ^ 25"
proof -
  from assms have x: "1 / 2 \<le> 1 - p" "1 - p < 1" by simp_all
  from float32_round_ge_half [OF x] show h: "1 / 2 \<le> float32_sub 1 p"
    by (simp add: float32_sub_def)
  with assms show "float32_sub 1 p = max p (float32_sub 1 p)"
    by (simp add: max_def)
  from assms have "max p (1 - p) = 1 - p" by (simp add: max_def)
  with float32_round_error_upper_half [OF x]
  show "\<bar>float32_sub 1 p - max p (1 - p)\<bar> \<le> 1 / 2 ^ 25"
    by (simp only: float32_sub_def)
qed

text \<open>
  Claim C1, as amended. Whenever the image opens and the model answers with a raw score
  \<open>p\<close> strictly between 0 and 1, \<^verbatim>\<open>predict_image\<close> returns that score with a
  diagnosis and a confidence, and prints them, and shows them in the title of the figure
  when it shows one. The diagnosis is PNEUMONIA exactly when \<open>p > 0.5\<close> and NORMAL
  exactly when \<open>p \<le> 0.5\<close> (so at 0.5 itself). The confidence is \<open>p\<close> for PNEUMONIA and
  the single-precision difference \<^verbatim>\<open>1 - p\<close> for NORMAL; it is the greater of \<open>p\<close>
  and that difference, it is at least 0.5, and it is within \<open>2\<close> to the \<open>-25\<close> of
  \<open>max p (1 - p)\<close>. The sample grid of the training script labels and scores a
  prediction the same way and writes both into the title of its cell.
\<close>

theorem predict_image_threshold:
  assumes "0 < p" and "p < 1"
    and "image_open_rgb E image_path = Inr img0"
    and "m [normalize_pixels (image_resize E (IMG_SIZE, IMG_SIZE) img0)] = Inr p"
  shows "\<exists>d c col.
           predict_image E m image_path sh =
             (Inr (d, c, p),
              [ModelPredict [normalize_pixels (image_resize E (IMG_SIZE, IMG_SIZE) img0)],
               Print [Str (CHR 0x0A # ''Prediction Results:'')],
               Print [Str ''  Diagnosis: '', Str d],
               Print [Str ''  Confidence: '', Pct c],
               Print [Str ''  Raw Score: '', Fix4 p]] @
              (if sh then [ShowFigure d c col] else [])) \<and>
           (d = ''PNEUMONIA'' \<longleftrightarrow> p > 0.5) \<and> (d = ''NORMAL'' \<longleftrightarrow> p \<le> 0.5) \<and>
           c = (if d = ''PNEUMONIA'' then p else float32_sub 1 p) \<and>
           c = max p (float32_sub 1 p) \<and> c \<ge> 0.5 \<and>
           \<bar>c - max p (1 - p)\<bar> \<le> 1 / 2 ^ 25 \<and>
           col = (if d = ''PNEUMONIA'' then ''red'' else ''green'') \<and>
           (pred_label p = ''Pneumonia'' \<longleftrightarrow> p > 0.5) \<and>
           (pred_label p = ''Normal'' \<longleftrightarrow> p \<le> 0.5) \<and>
           grid_confidence p = c \<and>
           fst (grid_title l p) =
             [Str ''True: '', Str (true_label l),
              Str (CHR 0x0A # ''Pred: ''), Str (if p > 0.5 then ''Pneumonia'' else ''Normal''),
              Str (CHR 0x0A # ''Conf: ''), Fix2 c]"
proof (cases "1 / 2 < p")
  case True
  from confidence_above_threshold [OF True assms(2)] True
    predict_image_run [of E image_path img0 m p sh] assms(3,4)
  show ?thesis
    by (simp add: interpret_prediction_def pred_label_def predicted_class_def
        grid_confidence_def grid_title_def)
next
  case False
  then have le: "p \<le> 1 / 2" by simp
  from confidence_at_most_threshold [OF assms(1) le] False
    predict_image_run [of E image_path img0 m p sh] assms(3,4)
  show ?thesis
    by (simp add: interpret_prediction_def pred_label_def predicted_class_def
        grid_confidence_def grid_title_def)
qed

theorem predict_image_threshold_witness:
  "predict_image demo_env (\<lambda>x. Inr (1 / 2)) ''half.png'' False =
     (Inr (''NORMAL'', 1 / 2, 1 / 2),
      [ModelPredict [[[[1, 1, 1], [0, 0, 0]], [[0, 0, 0], [0, 0, 0]]]],
       Print [Str (CHR 0x0A # ''Prediction Results:'')],
       Print [Str ''  Diagnosis: '', Str ''NORMAL''],
       Print [Str ''  Confidence: '', Pct (1 / 2)],
       Print [Str ''  Raw Score: '', Fix4 (1 / 2)]]) \<and>
   predict_image demo_env (\<lambda>x. Inr (3 / 4)) ''half.png'' True =
     (Inr (''PNEUMONIA'', 3 / 4, 3 / 4),
      [ModelPredict [[[[1, 1, 1], [0, 0, 0]], [[0, 0, 0], [0, 0, 0]]]],
       Print [Str (CHR 0x0A # ''Prediction Results:'')],
       Print [Str ''  Diagnosis: '', Str ''PNEUMONIA''],
       Print [Str ''  Confidence: '', Pct (3 / 4)],
       Print [Str ''  Raw Score: '', Fix4 (3 / 4)],
       ShowFigure ''PNEUMONIA'' (3 / 4) ''red''])"
proof -
  let ?img = "[[(255, 255, 255), (0, 0, 0)], [(0, 0, 0), (0, 0, 0)]] :: image"
  have a: "image_open_rgb demo_env ''half.png'' = Inr ?img"
    by (simp add: demo_env_def demo_images_def)
  have t: "normalize_pixels (image_resize demo_env (IMG_SIZE, IMG_SIZE) ?img) =
      [[[1, 1, 1], [0, 0, 0]], [[0, 0, 0], [0, 0, 0]]]"
    by (simp add: demo_env_def normalize_pixels_def)
  have h: "float32_sub 1 (1 / 2) = 1 / 2"
    by (simp add: float32_sub_def float32_round_upper_half round_half_even_def Let_def)
  from predict_image_threshold
         [of "1 / 2" demo_env "''half.png''" ?img "\<lambda>x. Inr (1 / 2)" False, OF _ _ a]
  have n: "predict_image demo_env (\<lambda>x. Inr (1 / 2)) ''half.png'' False =
     (Inr (''NORMAL'', 1 / 2, 1 / 2),
      [ModelPredict [[[[1, 1, 1], [0, 0, 0]], [[0, 0, 0], [0, 0, 0]]]],
       Print [Str (CHR 0x0A # ''Prediction Results:'')],
       Print [Str ''  Diagnosis: '', Str ''NORMAL''],
       Print [Str ''  Confidence: '', Pct (1 / 2)],
       Print [Str ''  Raw Score: '', Fix4 (1 / 2)]])"
    by (auto simp: t h)
  from predict_image_threshold
         [of "3 / 4" demo_env "''half.png''" ?img "\<lambda>x. Inr (3 / 4)" True, OF _ _ a]
  have q: "predict_image demo_env (\<lambda>x. Inr (3 / 4)) ''half.png'' True =
     (Inr (''PNEUMONIA'', 3 / 4, 3 / 4),
      [ModelPredict [[[[1, 1, 1], [0, 0, 0]], [[0, 0, 0], [0, 0, 0]]]],
       Print [Str (CHR 0x0A # ''Prediction Results:'')],
       Print [Str ''  Diagnosis: '', Str ''PNEUMONIA''],
       Print [Str ''  Confidence: '', Pct (3 / 4)],
       Print [Str ''  Raw Score: '', Fix4 (3 / 4)],
       ShowFigure ''PNEUMONIA'' (3 / 4) ''red''])"
    by (auto simp: t)
  from n q show ?thesis by blast
qed

text \<open>
  Claim C1 as it was stated fails where the single-precision difference rounds. The
  \<^verbatim>\<open>float32\<close> nearest to 0.2 is 13421773 / 67108864; for this raw score the
  confidence is 13421773 / 16777216, and \<open>max p (1 - p)\<close> is 53687091 / 67108864, which
  is not a \<^verbatim>\<open>float32\<close>.
\<close>

theorem confidence_rounding_counterexample:
  "is_float32 (13421773 / 67108864) \<and>
   fst (predict_image demo_env (\<lambda>x. Inr (13421773 / 67108864)) ''half.png'' False) =
     Inr (''NORMAL'', 13421773 / 16777216, 13421773 / 67108864) \<and>
   max (13421773 / 67108864) (1 - 13421773 / 67108864) = (53687091 / 67108864 :: real) \<and>
   \<not> is_float32 (53687091 / 67108864) \<and>
   (13421773 / 16777216 :: real) \<noteq> 53687091 / 67108864"
proof -
  have a: "is_float32 (13421773 / 67108864)"
    using float32_exponent_of_fifth
    by (simp add: is_float32_def float32_round_def float32_ulp_def round_half_even_def
        Let_def)
  have r: "float32_round (53687091 / 67108864) = 13421773 / 16777216"
    by (simp add: float32_round_upper_half round_half_even_def Let_def)
  then have b: "\<not> is_float32 (53687091 / 67108864)"
    by (simp add: is_float32_def)
  have c: "fst (predict_image demo_env (\<lambda>x. Inr (13421773 / 67108864)) ''half.png'' False) =
      Inr (''NORMAL'', 13421773 / 16777216, 13421773 / 67108864)"
    using r
    by (simp add: predict_image_def preprocess_image_def run_defs demo_env_def
        demo_images_def interpret_prediction_def float32_sub_def)
  from a b c show ?thesis by simp
qed

subsection \<open>Batch mode\<close>

lemma predict_image_diagnosis:
  assumes "fst (predict_image E m p sh) = Inr (d, c, raw)"
  shows "d = ''NORMAL'' \<or> d = ''PNEUMONIA''"
  using assms
  by (auto simp: predict_image_def preprocess_image_def run_defs Let_def
      interpret_prediction_def split: prod.splits sum.splits if_splits)

lemma step_success:
  assumes "fst (predict_image E m p False) = Inr (d, c, raw)"
  shows "\<exists>out. predict_batch_step E m n i p rs =
           (Inr (rs @ [\<lparr>image = basename p, diagnosis = d, confidence = c, raw_score = raw\<rparr>]),
            progress_line i n p # out)"
  using assms
  by (cases "predict_image E m p False")
     (auto simp: predict_batch_step_def run_defs progress_line_def)

lemma step_failure:
  assumes "fst (predict_image E m p False) = Inl e"
  shows "\<exists>out. predict_batch_step E m n i p rs =
           (Inr rs, progress_line i n p # out @ [error_line e])"
  using assms
  by (cases "predict_image E m p False")
     (auto simp: predict_batch_step_def run_defs progress_line_def error_line_def)

lemma step_cases:
  "\<exists>out. predict_batch_step E m n i p rs =
      (Inr (rs @ (case batch_entry E m p of None \<Rightarrow> [] | Some r \<Rightarrow> [r])),
       progress_line i n p # out) \<and>
      (\<forall>e. fst (predict_image E m p False) = Inl e \<longrightarrow> error_line e \<in> set out)"
proof (cases "fst (predict_image E m p False)")
  case (Inl e)
  from step_failure [OF this, of n i rs] Inl show ?thesis
    by (auto simp: batch_entry_def)
next
  case (Inr t)
  obtain d c raw where "t = (d, c, raw)" by (cases t) auto
  with Inr step_success [of E m p d c raw n i rs] show ?thesis
    by (auto simp: batch_entry_def)
qed

lemma loop_results:
  "\<exists>out. predict_batch_loop E m n i ps rs =
       (Inr (rs @ List.map_filter (batch_entry E m) ps), out) \<and>
      (\<forall>k<length ps. progress_line (i + k) n (ps ! k) \<in> set out) \<and>
      (\<forall>p\<in>set ps. \<forall>e. fst (predict_image E m p False) = Inl e \<longrightarrow> error_line e \<in> set out)"
proof (induction ps arbitrary: i rs)
  case Nil
  then show ?case by simp
next
  case (Cons p ps)
  let ?rs = "rs @ (case batch_entry E m p of None \<Rightarrow> [] | Some r \<Rightarrow> [r])"
  obtain o1 where s: "predict_batch_step E m n i p rs = (Inr ?rs, progress_line i n p # o1)"
    and e1: "\<forall>e. fst (predict_image E m p False) = Inl e \<longrightarrow> error_line e \<in> set o1"
    using step_cases [of E m n i p rs] by blast
  obtain o2 where l: "predict_batch_loop E m n (i + 1) ps ?rs =
      (Inr (?rs @ List.map_filter (batch_entry E m) ps), o2)"
    and p2: "\<forall>k<length ps. progress_line (i + 1 + k) n (ps ! k) \<in> set o2"
    and e2: "\<forall>q\<in>set ps. \<forall>e. fst (predict_image E m q False) = Inl e \<longrightarrow> error_line e \<in> set o2"
    using Cons.IH [of "i + 1" ?rs] by blast
  let ?out = "progress_line i n p # o1 @ o2"
  have r: "predict_batch_loop E m n i (p # ps) rs =
      (Inr (rs @ List.map_filter (batch_entry E m) (p # ps)), ?out)"
    using s l by (simp split: option.splits)
  have pr: "\<forall>k<length (p # ps). progress_line (i + k) n ((p # ps) ! k) \<in> set ?out"
  proof (intro allI impI)
    fix k assume "k < length (p # ps)"
    then show "progress_line (i + k) n ((p # ps) ! k) \<in> set ?out"
      using p2 by (cases k) auto
  qed
  have er: "\<forall>q\<in>set (p # ps). \<forall>e. fst (predict_image E m q False) = Inl e \<longrightarrow>
      error_line e \<in> set ?out"
    using e1 e2 by auto
  from r pr er show ?case by blast
qed

lemma map_filter_entry_counts:
  "count_diagnosis ''NORMAL'' (List.map_filter (batch_entry E m) ps) +
   count_diagnosis ''PNEUMONIA'' (List.map_filter (batch_entry E m) ps) =
   length (List.map_filter (batch_entry E m) ps)"
proof (induction ps)
  case Nil
  then show ?case by (simp add: count_diagnosis_def)
next
  case (Cons p ps)
  show ?case
  proof (cases "fst (predict_image E m p False)")
    case (Inl e)
    then have "batch_entry E m p = None" by (simp add: batch_entry_def)
    with Cons show ?thesis by simp
  next
    case (Inr t)
    obtain d c raw where t: "t = (d, c, raw)" by (cases t) auto
    from Inr t predict_image_diagnosis [of E m p False d c raw]
    have "d = ''NORMAL'' \<or> d = ''PNEUMONIA''" by simp
    moreover have "batch_entry E m p =
        Some \<lparr>image = basename p, diagnosis = d, confidence = c, raw_score = raw\<rparr>"
      using Inr t by (simp add: batch_entry_def)
    ultimately show ?thesis using Cons
      by (auto simp: count_diagnosis_def)
  qed
qed

lemma map_filter_entry_length:
  "length (List.map_filter (batch_entry E m) ps) = length (filter (succeeds E m) ps)"
  by (induction ps) (auto simp: batch_entry_def succeeds_def split: sum.splits)

text \<open>
  Claim C2. For every list of image paths, \<^verbatim>\<open>predict_batch\<close> returns and never raises.
  Its results are the entries of exactly the images whose prediction succeeded, in input
  order, so a failed image stops nothing and is in neither count: the numbers of NORMAL
  and of PNEUMONIA results add up to the number of results, which is the number of
  images that succeeded. Every image gets its progress line, every failure its error
  line, and the last two lines printed are the two counts.
\<close>

theorem predict_batch_continues:
  "\<exists>results out.
     predict_batch E m image_paths = (Inr results, out) \<and>
     results = List.map_filter (batch_entry E m) image_paths \<and>
     length results = length (filter (succeeds E m) image_paths) \<and>
     count_diagnosis ''NORMAL'' results + count_diagnosis ''PNEUMONIA'' results =
       length results \<and>
     (\<forall>k<length image_paths.
        progress_line (k + 1) (length image_paths) (image_paths ! k) \<in> set out) \<and>
     (\<forall>p\<in>set image_paths. \<forall>e.
        fst (predict_image E m p False) = Inl e \<longrightarrow> error_line e \<in> set out) \<and>
     drop (length out - 2) out =
       [Print [Str ''  Normal: '', Num (count_diagnosis ''NORMAL'' results)],
        Print [Str ''  Pneumonia: '', Num (count_diagnosis ''PNEUMONIA'' results)]]"
proof -
  let ?n = "length image_paths"
  let ?rs = "List.map_filter (batch_entry E m) image_paths"
  obtain o1 where l: "predict_batch_loop E m ?n 1 image_paths [] = (Inr ?rs, o1)"
    and pr: "\<forall>k<?n. progress_line (1 + k) ?n (image_paths ! k) \<in> set o1"
    and er: "\<forall>p\<in>set image_paths. \<forall>e.
        fst (predict_image E m p False) = Inl e \<longrightarrow> error_line e \<in> set o1"
    using loop_results [of E m ?n 1 image_paths "[]"] by auto
  let ?head = "Print [Str (CHR 0x0A # ''Processing ''), Num ?n, Str ('' images...'' @ [CHR 0x0A])]"
  let ?tail = "[Print [Str (CHR 0x0A # ''Summary:'')],
      Print [Str ''  Normal: '', Num (count_diagnosis ''NORMAL'' ?rs)],
      Print [Str ''  Pneumonia: '', Num (count_diagnosis ''PNEUMONIA'' ?rs)]]"
  let ?out = "?head # o1 @ ?tail"
  have run: "predict_batch E m image_paths = (Inr ?rs, ?out)"
    using l by (simp add: predict_batch_def run_defs Let_def)
  have last2: "drop (length ?out - 2) ?out =
      [Print [Str ''  Normal: '', Num (count_diagnosis ''NORMAL'' ?rs)],
       Print [Str ''  Pneumonia: '', Num (count_diagnosis ''PNEUMONIA'' ?rs)]]"
    by simp
  have pr': "\<forall>k<?n. progress_line (k + 1) ?n (image_paths ! k) \<in> set ?out"
    using pr by simp
  have er': "\<forall>p\<in>set image_paths. \<forall>e.
        fst (predict_image E m p False) = Inl e \<longrightarrow> error_line e \<in> set ?out"
    using er by simp
  from run last2 pr' er' map_filter_entry_counts [of E m image_paths]
    map_filter_entry_length [of E m image_paths]
  show ?thesis by blast
qed

theorem predict_batch_continues_witness:
  "fst (predict_batch demo_env demo_model [''scans/a.png'', ''scans/notes.txt'', ''scans/b.JPG'']) =
     Inr [\<lparr>image = ''a.png'', diagnosis = ''NORMAL'', confidence = 13421773 / 16777216,
            raw_score = 1 / 5\<rparr>,
          \<lparr>image = ''b.JPG'', diagnosis = ''PNEUMONIA'', confidence = 4 / 5, raw_score = 4 / 5\<rparr>] \<and>
   error_line (OtherError ''cannot identify image file scans/notes.txt'') \<in>
     set (snd (predict_batch demo_env demo_model [''scans/a.png'', ''scans/notes.txt'', ''scans/b.JPG'']))"
proof -
  have a: "batch_entry demo_env demo_model ''scans/a.png'' =
      Some \<lparr>image = ''a.png'', diagnosis = ''NORMAL'', confidence = 13421773 / 16777216,
             raw_score = 1 / 5\<rparr>"
    by (simp add: batch_entry_def predict_image_def preprocess_image_def run_defs demo_env_def
        demo_images_def demo_model_def normalize_pixels_def interpret_prediction_def
        basename_def float32_sub_def float32_round_upper_half round_half_even_def Let_def)
  have b: "batch_entry demo_env demo_model ''scans/b.JPG'' =
      Some \<lparr>image = ''b.JPG'', diagnosis = ''PNEUMONIA'', confidence = 4 / 5, raw_score = 4 / 5\<rparr>"
    by (simp add: batch_entry_def predict_image_def preprocess_image_def run_defs demo_env_def
        demo_images_def demo_model_def normalize_pixels_def interpret_prediction_def
        basename_def)
  have c: "fst (predict_image demo_env demo_model ''scans/notes.txt'' False) =
      Inl (OtherError ''cannot identify image file scans/notes.txt'')"
    by (simp add: predict_image_def preprocess_image_def run_defs demo_env_def
        demo_images_def)
  have d: "batch_entry demo_env demo_model ''scans/notes.txt'' = None"
    using c by (simp add: batch_entry_def)
  from predict_batch_continues
         [of demo_env demo_model "[''scans/a.png'', ''scans/notes.txt'', ''scans/b.JPG'']"]
  show ?thesis using a b c d by auto
qed

subsection \<open>Resolving the path arguments\<close>

lemma isdir_Dir: "fs E d = Some (Dir r) \<Longrightarrow> isdir E d"
  by (simp add: isdir_def)

lemma listdir_Dir: "fs E d = Some (Dir r) \<Longrightarrow> listdir E d = r"
  by (simp add: listdir_def)

lemma extend_from_dir_Inr:
  assumes "listdir E d = Inr names"
  shows "extend_from_dir E d exts acc =
           Inr (acc @ concat (map (\<lambda>ext. map (join d) (names_with_ext ext names)) exts))"
  using assms by (induction exts arbitrary: acc) (simp_all add: names_with_ext_def)

lemma extend_from_dir_acc:
  "extend_from_dir E d exts acc =
     (case extend_from_dir E d exts [] of Inl e \<Rightarrow> Inl e | Inr xs \<Rightarrow> Inr (acc @ xs))"
proof (cases "listdir E d")
  case (Inl e)
  then show ?thesis by (cases exts) simp_all
next
  case (Inr names)
  then show ?thesis by (simp add: extend_from_dir_Inr)
qed

lemma collect_acc:
  "collect_image_paths E ps acc =
     (case collect_image_paths E ps [] of Inl e \<Rightarrow> Inl e | Inr xs \<Rightarrow> Inr (acc @ xs))"
proof (induction ps arbitrary: acc)
  case Nil
  then show ?case by simp
next
  case (Cons p ps)
  show ?case
  proof (cases "isdir E p")
    case True
    show ?thesis
    proof (cases "extend_from_dir E p image_exts []")
      case (Inl e)
      with True show ?thesis
        using extend_from_dir_acc [of E p image_exts acc] by simp
    next
      case (Inr xs)
      then have "extend_from_dir E p image_exts acc = Inr (acc @ xs)"
        using extend_from_dir_acc [of E p image_exts acc] by simp
      with True Inr show ?thesis
        using Cons.IH [of "acc @ xs"] Cons.IH [of xs]
        by (simp split: sum.splits)
    qed
  next
    case False
    then show ?thesis
      using Cons.IH [of "acc @ [p]"] Cons.IH [of "[p]"] Cons.IH [of acc]
      by (simp split: sum.splits)
  qed
qed

lemma collect_append:
  "collect_image_paths E (xs @ ys) acc =
     (case collect_image_paths E xs acc of
        Inl e \<Rightarrow> Inl e
      | Inr acc' \<Rightarrow> collect_image_paths E ys acc')"
  by (induction xs arbitrary: acc) (simp_all split: sum.splits)

lemma collect_around:
  assumes "collect_image_paths E pre [] = Inr A"
    and "collect_image_paths E [p] [] = Inr ps"
    and "collect_image_paths E post [] = Inr B"
  shows "collect_image_paths E (pre @ p # post) [] = Inr (A @ ps @ B)"
proof -
  have "collect_image_paths E (pre @ [p] @ post) [] = collect_image_paths E ([p] @ post) A"
    using assms(1) by (simp only: collect_append [of E pre] sum.case)
  also have "\<dots> = collect_image_paths E post (A @ ps)"
    using assms(2) collect_acc [of E "[p]" A]
    by (simp only: collect_append [of E "[p]"] sum.case)
  also have "\<dots> = Inr ((A @ ps) @ B)"
    using assms(3) collect_acc [of E post "A @ ps"] by simp
  finally show ?thesis by simp
qed

lemma endswith_shorter:
  assumes "endswith s a" and "endswith s b" and "length a \<le> length b"
  shows "take (length a) (rev b) = rev a"
proof -
  have "take (length a) (rev b) = take (length a) (take (length b) (rev s))"
    using assms(2) by (simp only: endswith_def)
  also have "\<dots> = take (length a) (rev s)"
    using assms(3) by (simp add: min_def)
  also have "\<dots> = rev a"
    using assms(1) by (simp only: endswith_def)
  finally show ?thesis .
qed

lemma endswith_exclusive:
  "\<not> (endswith s ''.jpg'' \<and> endswith s ''.jpeg'')"
  "\<not> (endswith s ''.jpg'' \<and> endswith s ''.png'')"
  "\<not> (endswith s ''.jpeg'' \<and> endswith s ''.png'')"
  using endswith_shorter [of s "''.jpg''" "''.jpeg''"]
    endswith_shorter [of s "''.jpg''" "''.png''"]
    endswith_shorter [of s "''.png''" "''.jpeg''"]
  by auto

lemma is_image_name_iff:
  "is_image_name f \<longleftrightarrow>
     endswith (lower f) ''.jpg'' \<or> endswith (lower f) ''.jpeg'' \<or> endswith (lower f) ''.png''"
  by (simp add: is_image_name_def image_exts_def)

lemma mset_by_extension:
  "mset (names_with_ext ''.jpg'' names @ names_with_ext ''.jpeg'' names @
         names_with_ext ''.png'' names) =
   mset (filter is_image_name names)"
proof (induction names)
  case Nil
  then show ?case by (simp add: names_with_ext_def)
next
  case (Cons f names)
  then show ?case
    using endswith_exclusive [of "lower f"]
    by (auto simp: names_with_ext_def is_image_name_iff)
qed

text \<open>
  Claim C3, as amended. A directory argument whose listing succeeds contributes, at its
  place among the results of the other arguments, exactly its children whose names end
  case-insensitively in \<^verbatim>\<open>.jpg\<close>, \<^verbatim>\<open>.jpeg\<close> or \<^verbatim>\<open>.png\<close>, each as often as
  the listing gives it and no other name. They come grouped by extension, the
  \<^verbatim>\<open>.jpg\<close> names first, then the \<^verbatim>\<open>.jpeg\<close> names, then the \<^verbatim>\<open>.png\<close> names;
  the order of the listing is kept inside each group.
\<close>

theorem directory_expansion:
  assumes "fs E d = Some (Dir (Inr names))"
    and "collect_image_paths E pre [] = Inr A"
    and "collect_image_paths E post [] = Inr B"
  shows "\<exists>ps. collect_image_paths E (pre @ d # post) [] = Inr (A @ ps @ B) \<and>
           ps = map (join d) (names_with_ext ''.jpg'' names @ names_with_ext ''.jpeg'' names @
                              names_with_ext ''.png'' names) \<and>
           mset ps = mset (map (join d) (filter is_image_name names))"
proof -
  let ?ps = "map (join d) (names_with_ext ''.jpg'' names @ names_with_ext ''.jpeg'' names @
                              names_with_ext ''.png'' names)"
  have "collect_image_paths E [d] [] = Inr ?ps"
    using isdir_Dir [OF assms(1)] extend_from_dir_Inr [OF listdir_Dir [OF assms(1)], of image_exts "[]"]
    by (simp add: image_exts_def)
  from collect_around [OF assms(2) this assms(3)]
  have "collect_image_paths E (pre @ d # post) [] = Inr (A @ ?ps @ B)" .
  moreover have "mset ?ps = mset (map (join d) (filter is_image_name names))"
    using mset_by_extension [of names] by (metis mset_map)
  ultimately show ?thesis by blast
qed

theorem directory_expansion_witness:
  "collect_image_paths demo_env [''notes.txt'', ''scans'', ''missing''] [] =
     Inr [''notes.txt'', ''scans/b.JPG'', ''scans/c.jpeg'', ''scans/a.png'']"
proof -
  have a: "fs demo_env ''scans'' = Some (Dir (Inr [''a.png'', ''notes.txt'', ''b.JPG'', ''c.jpeg'']))"
    by (simp add: demo_env_def)
  have b: "collect_image_paths demo_env [''notes.txt''] [] = Inr [''notes.txt'']"
    by (simp add: demo_env_def isdir_def isfile_def)
  have c: "collect_image_paths demo_env [''missing''] [] = Inr []"
    by (simp add: demo_env_def isdir_def isfile_def)
  from directory_expansion [OF a b c]
  show ?thesis
    by (simp add: names_with_ext_def lower_def lower_char_def endswith_def join_def)
qed

text \<open>
  Claim C3 as it was stated fails: the order of the listing is not kept across
  extensions. A directory listed as
  \<^verbatim>\<open>a.png\<close>, \<^verbatim>\<open>b.jpg\<close> resolves to \<^verbatim>\<open>b.jpg\<close> before \<^verbatim>\<open>a.png\<close>.
\<close>

theorem directory_order_counterexample:
  "listdir order_env ''scans'' = Inr [''a.png'', ''b.jpg''] \<and>
   collect_image_paths order_env [''scans''] [] = Inr [''scans/b.jpg'', ''scans/a.png''] \<and>
   map (join ''scans'') (filter is_image_name [''a.png'', ''b.jpg'']) =
     [''scans/a.png'', ''scans/b.jpg''] \<and>
   collect_image_paths order_env [''scans''] [] \<noteq>
     Inr (map (join ''scans'') (filter is_image_name [''a.png'', ''b.jpg'']))"
  by (simp add: order_env_def listdir_def isdir_def image_exts_def is_image_name_def
      lower_def lower_char_def endswith_def join_def)

subsection \<open>The control flow of \<^verbatim>\<open>main\<close>\<close>

lemma load_model_missing:
  "fs E p = None \<Longrightarrow>
     load_model E p = (Inl (FileNotFoundError (''Model not found: '' @ p)), [])"
  by (simp add: load_model_def path_exists_def run_defs)

lemma load_model_loaded:
  "fs E p = Some nd \<Longrightarrow> keras_load_model E p = Inr m \<Longrightarrow>
     load_model E p =
       (Inr m, [Print [Str ''Loading model from '', Str p, Str ''...''], KerasLoad p,
                Print [Str ''Model loaded successfully!'']])"
  by (simp add: load_model_def path_exists_def run_defs)

lemma load_model_rejected:
  "fs E p = Some nd \<Longrightarrow> keras_load_model E p = Inl e \<Longrightarrow>
     load_model E p =
       (Inl e, [Print [Str ''Loading model from '', Str p, Str ''...''], KerasLoad p])"
  by (simp add: load_model_def path_exists_def run_defs)

lemma main_load_fails:
  "load_model E (args_model a) = (Inl e, out) \<Longrightarrow> main E a = (Inl e, out)"
  by (simp add: main_def)

text \<open>
  Claim C5. When nothing exists at the model path, which is the value of
  \<^verbatim>\<open>--model\<close> when it is given and \<^verbatim>\<open>best_model.keras\<close> otherwise,
  \<^verbatim>\<open>load_model\<close> raises \<^verbatim>\<open>FileNotFoundError\<close> before anything is printed and
  before the framework's loader is called. Neither \<^verbatim>\<open>main\<close> nor the script handles
  it or tries another path: the run ends with that exception and no output.
\<close>

theorem missing_model_fatal:
  assumes "fs E (args_model a) = None"
  shows "args_model a = (case model_arg a of None \<Rightarrow> ''best_model.keras'' | Some p \<Rightarrow> p) \<and>
         load_model E (args_model a) =
           (Inl (FileNotFoundError (''Model not found: '' @ args_model a)), []) \<and>
         main E a = (Inl (FileNotFoundError (''Model not found: '' @ args_model a)), []) \<and>
         script E (Some a) =
           (Inl (FileNotFoundError (''Model not found: '' @ args_model a)), [])"
proof -
  have "args_model a = (case model_arg a of None \<Rightarrow> ''best_model.keras'' | Some p \<Rightarrow> p)"
    by (simp add: args_model_def MODEL_PATH_def split: option.splits)
  with load_model_missing [OF assms] main_load_fails [of E a]
  show ?thesis by (simp add: script_def)
qed

theorem missing_model_fatal_witness:
  "main no_model_env \<lparr>images = [''scans''], model_arg = None, no_show = True\<rparr> =
     (Inl (FileNotFoundError ''Model not found: best_model.keras''), []) \<and>
   main demo_env \<lparr>images = [''scans''], model_arg = Some ''other.keras'', no_show = True\<rparr> =
     (Inl (FileNotFoundError ''Model not found: other.keras''), [])"
proof -
  have a: "fs no_model_env (args_model \<lparr>images = [''scans''], model_arg = None, no_show = True\<rparr>) = None"
    by (simp add: no_model_env_def args_model_def MODEL_PATH_def)
  have b: "fs demo_env (args_model \<lparr>images = [''scans''], model_arg = Some ''other.keras'', no_show = True\<rparr>) = None"
    by (simp add: demo_env_def args_model_def)
  from missing_model_fatal [OF a] missing_model_fatal [OF b]
  show ?thesis by (simp add: args_model_def MODEL_PATH_def)
qed

text \<open>
  Claim C4, as amended. When the model file exists and loads, and the arguments resolve
  to no image path, \<^verbatim>\<open>main\<close> returns without raising; it prints the two lines of
  \<^verbatim>\<open>load_model\<close> and then \<^verbatim>\<open>No valid images found!\<close>, and
  \<^verbatim>\<open>model.predict\<close> is never called.
\<close>

theorem no_valid_images:
  assumes "fs E (args_model a) = Some nd"
    and "keras_load_model E (args_model a) = Inr m"
    and "collect_image_paths E (images a) [] = Inr []"
  shows "main E a =
           (Inr (), [Print [Str ''Loading model from '', Str (args_model a), Str ''...''],
                     KerasLoad (args_model a),
                     Print [Str ''Model loaded successfully!''],
                     Print [Str ''No valid images found!'']]) \<and>
         (\<forall>x. ModelPredict x \<notin> set (snd (main E a)))"
  using load_model_loaded [OF assms(1,2)] assms(3)
  by (simp add: main_def run_defs)

theorem no_valid_images_witness:
  "main demo_env \<lparr>images = [''empty'', ''missing''], model_arg = None, no_show = False\<rparr> =
     (Inr (), [Print [Str ''Loading model from '', Str ''best_model.keras'', Str ''...''],
               KerasLoad ''best_model.keras'',
               Print [Str ''Model loaded successfully!''],
               Print [Str ''No valid images found!'']])"
proof -
  let ?a = "\<lparr>images = [''empty'', ''missing''], model_arg = None, no_show = False\<rparr>"
  have p: "args_model ?a = ''best_model.keras''"
    by (simp add: args_model_def MODEL_PATH_def)
  have a: "fs demo_env (args_model ?a) = Some File"
    by (simp add: p) (simp add: demo_env_def)
  have b: "keras_load_model demo_env (args_model ?a) = Inr demo_model"
    by (simp add: demo_env_def)
  have c: "collect_image_paths demo_env (images ?a) [] = Inr []"
    by (simp add: demo_env_def isdir_def isfile_def listdir_def image_exts_def)
  from no_valid_images [OF a b c] show ?thesis by (simp add: p)
qed

text \<open>
  Claim C4 as it was stated fails when the model file is missing: arguments that
  resolve to no image then end in \<^verbatim>\<open>FileNotFoundError\<close>, and no line is printed.
\<close>

theorem no_valid_images_counterexample:
  "collect_image_paths no_model_env [''empty'', ''missing''] [] = Inr [] \<and>
   main no_model_env \<lparr>images = [''empty'', ''missing''], model_arg = None, no_show = False\<rparr> =
     (Inl (FileNotFoundError ''Model not found: best_model.keras''), [])"
  by (simp add: main_def load_model_def path_exists_def run_defs no_model_env_def demo_env_def
      args_model_def MODEL_PATH_def isdir_def isfile_def listdir_def image_exts_def)

lemma load_model_cases:
  "(\<exists>e out. load_model E p = (Inl e, out) \<and> Print [Str ''No valid images found!''] \<notin> set out) \<or>
   (\<exists>m. load_model E p =
       (Inr m, [Print [Str ''Loading model from '', Str p, Str ''...''], KerasLoad p,
                Print [Str ''Model loaded successfully!'']]))"
proof (cases "fs E p")
  case None
  then show ?thesis using load_model_missing [of E p] by simp
next
  case (Some nd)
  then show ?thesis
    using load_model_loaded [of E p nd] load_model_rejected [of E p nd]
    by (cases "keras_load_model E p") auto
qed

text \<open>
  Claim C10. \<^verbatim>\<open>main\<close> loads the model before it looks at a path argument: with no
  model file the run ends with \<^verbatim>\<open>FileNotFoundError\<close> whatever the arguments are,
  also when they resolve to no image; and a run that prints
  \<^verbatim>\<open>No valid images found!\<close> has loaded the model.
\<close>

theorem model_loaded_first:
  "(fs E (args_model a) = None \<longrightarrow>
      main E a = (Inl (FileNotFoundError (''Model not found: '' @ args_model a)), [])) \<and>
   (Print [Str ''No valid images found!''] \<in> set (snd (main E a)) \<longrightarrow>
      (\<exists>m. load_model E (args_model a) =
         (Inr m, [Print [Str ''Loading model from '', Str (args_model a), Str ''...''],
                  KerasLoad (args_model a),
                  Print [Str ''Model loaded successfully!'']])))"
  using load_model_cases [of E "args_model a"] load_model_missing [of E "args_model a"]
    main_load_fails [of E a]
  by auto

theorem model_loaded_first_witness:
  "collect_image_paths no_model_env [''empty''] [] = Inr [] \<and>
   main no_model_env \<lparr>images = [''empty''], model_arg = None, no_show = False\<rparr> =
     (Inl (FileNotFoundError ''Model not found: best_model.keras''), []) \<and>
   Print [Str ''No valid images found!''] \<in>
     set (snd (main demo_env \<lparr>images = [''empty''], model_arg = None, no_show = False\<rparr>)) \<and>
   load_model demo_env ''best_model.keras'' =
     (Inr demo_model, [Print [Str ''Loading model from '', Str ''best_model.keras'', Str ''...''],
                  KerasLoad ''best_model.keras'',
                  Print [Str ''Model loaded successfully!'']])"
proof -
  let ?a = "\<lparr>images = [''empty''], model_arg = None, no_show = False\<rparr>"
  have p: "args_model ?a = ''best_model.keras''"
    by (simp add: args_model_def MODEL_PATH_def)
  have a: "fs no_model_env (args_model ?a) = None"
    by (simp add: p) (simp add: no_model_env_def)
  have c: "collect_image_paths no_model_env [''empty''] [] = Inr []"
    by (simp add: no_model_env_def demo_env_def isdir_def isfile_def listdir_def image_exts_def)
  have d: "Print [Str ''No valid images found!''] \<in> set (snd (main demo_env ?a))"
    by (simp add: main_def load_model_def path_exists_def run_defs demo_env_def
      args_model_def MODEL_PATH_def isdir_def isfile_def listdir_def image_exts_def)
  have k: "keras_load_model demo_env ''best_model.keras'' = Inr demo_model"
    by (simp add: demo_env_def)
  from model_loaded_first [of no_model_env ?a] model_loaded_first [of demo_env ?a] a c d
  show ?thesis by (auto simp: p load_model_def run_defs k split: if_splits)
qed

text \<open>
  Claim C9. A path argument that names a regular file is added as it is, whatever its
  name ends in, at its place among the results of the other arguments. When it is the
  only argument, \<^verbatim>\<open>main\<close> is the model load followed by \<^verbatim>\<open>predict_image\<close> on
  that very path.
\<close>

theorem file_argument_unfiltered:
  assumes "fs E p = Some File"
  shows "collect_image_paths E [p] [] = Inr [p] \<and>
         (\<forall>pre post A B.
            collect_image_paths E pre [] = Inr A \<and> collect_image_paths E post [] = Inr B \<longrightarrow>
            collect_image_paths E (pre @ p # post) [] = Inr (A @ [p] @ B)) \<and>
         (images a = [p] \<longrightarrow>
            main E a =
              bind (load_model E (args_model a))
                (\<lambda>m. bind (predict_image E m p (\<not> no_show a)) (\<lambda>_. ret ())))"
proof -
  have one: "collect_image_paths E [p] [] = Inr [p]"
    using assms by (simp add: isdir_def isfile_def)
  have around: "\<forall>pre post A B.
            collect_image_paths E pre [] = Inr A \<and> collect_image_paths E post [] = Inr B \<longrightarrow>
            collect_image_paths E (pre @ p # post) [] = Inr (A @ [p] @ B)"
    using collect_around [OF _ one] by blast
  have "images a = [p] \<Longrightarrow> main E a =
              bind (load_model E (args_model a))
                (\<lambda>m. bind (predict_image E m p (\<not> no_show a)) (\<lambda>_. ret ()))"
    using one by (simp add: main_def call_def bind_pair)
  with one around show ?thesis by blast
qed

theorem file_argument_unfiltered_witness:
  "collect_image_paths demo_env [''notes.txt''] [] = Inr [''notes.txt''] \<and>
   collect_image_paths demo_env [''scans'', ''xray.txt''] [] = Inr [''scans/b.JPG'', ''scans/c.jpeg'', ''scans/a.png'', ''xray.txt''] \<and>
   main demo_env \<lparr>images = [''xray.txt''], model_arg = None, no_show = True\<rparr> =
     (Inr (), [Print [Str ''Loading model from '', Str ''best_model.keras'', Str ''...''],
               KerasLoad ''best_model.keras'',
               Print [Str ''Model loaded successfully!''],
               ModelPredict [[[[4 / 5, 4 / 5, 4 / 5]]]],
               Print [Str (CHR 0x0A # ''Prediction Results:'')],
               Print [Str ''  Diagnosis: '', Str ''PNEUMONIA''],
               Print [Str ''  Confidence: '', Pct (4 / 5)],
               Print [Str ''  Raw Score: '', Fix4 (4 / 5)]])"
proof -
  let ?a = "\<lparr>images = [''xray.txt''], model_arg = None, no_show = True\<rparr>"
  have n: "fs demo_env ''notes.txt'' = Some File"
    by (simp add: demo_env_def)
  have x: "fs demo_env ''xray.txt'' = Some File"
    by (simp add: demo_env_def)
  have s: "collect_image_paths demo_env [''scans''] [] = Inr [''scans/b.JPG'', ''scans/c.jpeg'', ''scans/a.png'']"
    by (simp add: demo_env_def isdir_def listdir_def image_exts_def lower_def lower_char_def
        endswith_def join_def)
  have e: "collect_image_paths demo_env [] [] = Inr []"
    by simp
  have l: "load_model demo_env (args_model ?a) =
     (Inr demo_model, [Print [Str ''Loading model from '', Str ''best_model.keras'', Str ''...''],
               KerasLoad ''best_model.keras'',
               Print [Str ''Model loaded successfully!'']])"
    by (simp add: load_model_def path_exists_def run_defs demo_env_def args_model_def
        MODEL_PATH_def)
  have q: "predict_image demo_env demo_model ''xray.txt'' False =
     (Inr (''PNEUMONIA'', 4 / 5, 4 / 5),
      [ModelPredict [[[[4 / 5, 4 / 5, 4 / 5]]]],
       Print [Str (CHR 0x0A # ''Prediction Results:'')],
       Print [Str ''  Diagnosis: '', Str ''PNEUMONIA''],
       Print [Str ''  Confidence: '', Pct (4 / 5)],
       Print [Str ''  Raw Score: '', Fix4 (4 / 5)]])"
    by (simp add: predict_image_def preprocess_image_def run_defs demo_env_def
        demo_images_def demo_model_def normalize_pixels_def interpret_prediction_def)
  from file_argument_unfiltered [OF n, of ?a]
  have w1: "collect_image_paths demo_env [''notes.txt''] [] = Inr [''notes.txt'']"
    by blast
  from file_argument_unfiltered [OF x, of ?a] s e
  have "collect_image_paths demo_env ([''scans''] @ ''xray.txt'' # []) [] =
      Inr ([''scans/b.JPG'', ''scans/c.jpeg'', ''scans/a.png''] @ [''xray.txt''] @ [])"
    by blast
  then have w2: "collect_image_paths demo_env [''scans'', ''xray.txt''] [] =
      Inr [''scans/b.JPG'', ''scans/c.jpeg'', ''scans/a.png'', ''xray.txt'']"
    by (simp only: append.simps)
  have "images ?a = [''xray.txt'']"
    by simp
  with file_argument_unfiltered [OF x, of ?a]
  have "main demo_env ?a =
      bind (load_model demo_env (args_model ?a))
        (\<lambda>m. bind (predict_image demo_env m ''xray.txt'' (\<not> no_show ?a)) (\<lambda>_. ret ()))"
    by blast
  then have w3: "main demo_env ?a =
     (Inr (), [Print [Str ''Loading model from '', Str ''best_model.keras'', Str ''...''],
               KerasLoad ''best_model.keras'',
               Print [Str ''Model loaded successfully!''],
               ModelPredict [[[[4 / 5, 4 / 5, 4 / 5]]]],
               Print [Str (CHR 0x0A # ''Prediction Results:'')],
               Print [Str ''  Diagnosis: '', Str ''PNEUMONIA''],
               Print [Str ''  Confidence: '', Pct (4 / 5)],
               Print [Str ''  Raw Score: '', Fix4 (4 / 5)]])"
    by (simp add: l q run_defs)
  from w1 w2 w3 show ?thesis by blast
qed

subsection \<open>The training run\<close>

lemma improves_at_iff: "improves_at L j \<longleftrightarrow> (\<forall>i<j. L j < L i)"
  by (auto simp: improves_at_def list_all_iff)

lemma trajectory_Suc:
  "weights_after t v w0 (Suc k) = t (snd (trajectory t v w0 k)) (weights_after t v w0 k)"
  "snd (trajectory t v w0 (Suc k)) = snd (trajectory t v w0 k) @ [loss_of_epoch t v w0 k]"
  by (simp_all add: weights_after_def loss_of_epoch_def split: prod.splits)

lemma trajectory_history:
  "snd (trajectory t v w0 k) = map (loss_of_epoch t v w0) [0..<k]"
  by (induction k) (simp_all add: trajectory_Suc del: trajectory.simps(2))

lemma weights_after_Suc:
  "weights_after t v w0 (Suc k) =
     t (map (loss_of_epoch t v w0) [0..<k]) (weights_after t v w0 k)"
  by (simp add: trajectory_Suc trajectory_history del: trajectory.simps)

lemma after_best_no_improvement:
  assumes "b < j" and "L b \<le> L j"
  shows "\<not> improves_at L j"
  using assms by (auto simp: improves_at_iff intro!: exI [of _ b])

lemma fit_inv_improving:
  fixes W :: "nat \<Rightarrow> 'w"
  assumes inv: "fit_inv W L k s" and imp: "improves (L k) (best s)"
  shows "fit_inv W L (Suc k)
           (s\<lparr>weights := W (Suc k), epochs_run := epochs_run s + 1,
              history := history s @ [L k], best := Some (L k),
              best_weights := W (Suc k), wait := 0\<rparr>)"
proof -
  have lt: "\<forall>i<k. L k < L i"
  proof (cases "k = 0")
    case True then show ?thesis by simp
  next
    case False
    with inv obtain b where b: "b < k" "best s = Some (L b)" "\<forall>i<k. L b \<le> L i"
      by (auto simp: fit_inv_def)
    with imp have "L k < L b" by simp
    with b(3) show ?thesis by fastforce
  qed
  then have "improves_at L k" by (simp add: improves_at_iff)
  then have no3: "\<not> three_without_improvement L k"
    by (simp add: three_without_improvement_def)
  have "\<forall>j<Suc k. \<not> three_without_improvement L j"
    using inv no3 by (auto simp: fit_inv_def less_Suc_eq)
  moreover have "\<exists>b<Suc k. (0::nat) = Suc k - 1 - b \<and> Some (L k) = Some (L b) \<and>
      W (Suc k) = W (Suc b) \<and> (\<forall>i<Suc k. L b \<le> L i) \<and> (\<forall>i<b. L b < L i)"
    using lt by (intro exI [of _ k]) (auto simp: less_Suc_eq)
  ultimately show ?thesis
    using inv by (simp add: fit_inv_def)
qed

lemma fit_inv_not_improving:
  fixes W :: "nat \<Rightarrow> 'w"
  assumes inv: "fit_inv W L k s" and imp: "\<not> improves (L k) (best s)"
  shows "0 < k \<and> (\<exists>b<k. wait s + 1 = k - b \<and> best_weights s = W (Suc b) \<and>
            (\<forall>i<Suc k. L b \<le> L i) \<and> (\<forall>i<b. L b < L i) \<and> best s = Some (L b))"
proof -
  from inv imp have k: "0 < k" by (cases "k = 0") (auto simp: fit_inv_def)
  with inv obtain b where b: "b < k" "wait s = k - 1 - b" "best s = Some (L b)"
      "best_weights s = W (Suc b)" "\<forall>i<k. L b \<le> L i" "\<forall>i<b. L b < L i"
    by (auto simp: fit_inv_def)
  from imp b(3) have "L b \<le> L k" by simp
  with b(5) have "\<forall>i<Suc k. L b \<le> L i" by (auto simp: less_Suc_eq)
  moreover from b(1,2) have "wait s + 1 = k - b" by simp
  ultimately show ?thesis using k b by blast
qed

lemma fit_inv_waiting:
  fixes W :: "nat \<Rightarrow> 'w"
  assumes inv: "fit_inv W L k s" and imp: "\<not> improves (L k) (best s)"
    and w: "wait s + 1 < 3"
  shows "fit_inv W L (Suc k)
           (s\<lparr>weights := W (Suc k), epochs_run := epochs_run s + 1,
              history := history s @ [L k], wait := wait s + 1\<rparr>)"
proof -
  from fit_inv_not_improving [OF inv imp]
  obtain b where k: "0 < k" and b: "b < k" "wait s + 1 = k - b" "best_weights s = W (Suc b)"
      "\<forall>i<Suc k. L b \<le> L i" "\<forall>i<b. L b < L i" "best s = Some (L b)"
    by blast
  have impb: "improves_at L b" using b(5) by (simp add: improves_at_iff)
  from b(1,2) w have "b = k - 1 \<or> b = k - 2" by auto
  with impb have no3: "\<not> three_without_improvement L k"
    by (auto simp: three_without_improvement_def)
  have "\<forall>j<Suc k. \<not> three_without_improvement L j"
    using inv no3 by (auto simp: fit_inv_def less_Suc_eq)
  moreover have "\<exists>b<Suc k. wait s + 1 = Suc k - 1 - b \<and> best s = Some (L b) \<and>
      best_weights s = W (Suc b) \<and> (\<forall>i<Suc k. L b \<le> L i) \<and> (\<forall>i<b. L b < L i)"
    using b by (intro exI [of _ b]) auto
  ultimately show ?thesis
    using inv w by (simp add: fit_inv_def)
qed

lemma fit_inv_stopping:
  fixes W :: "nat \<Rightarrow> 'w"
  assumes inv: "fit_inv W L k s" and imp: "\<not> improves (L k) (best s)"
    and w: "\<not> wait s + 1 < 3" and n: "Suc k \<le> n"
  shows "fit_post W L n
           (s\<lparr>weights := best_weights s, epochs_run := epochs_run s + 1,
              history := history s @ [L k], wait := wait s + 1, stopped := True\<rparr>)"
proof -
  from fit_inv_not_improving [OF inv imp]
  obtain b where k: "0 < k" and b: "b < k" "wait s + 1 = k - b" "best_weights s = W (Suc b)"
      "\<forall>i<Suc k. L b \<le> L i" "\<forall>i<b. L b < L i" "best s = Some (L b)"
    by blast
  from inv have "wait s < 3" by (simp add: fit_inv_def)
  with w b(2) have kb: "k - b = 3" by simp
  then have k2: "2 \<le> k" and lt: "b < k - 2" "b < k - 1" "b < k" by auto
  have "\<not> improves_at L (k - 2)" "\<not> improves_at L (k - 1)" "\<not> improves_at L k"
    using after_best_no_improvement [of b _ L] lt b(4) k by auto
  with k2 have three: "three_without_improvement L k"
    by (simp add: three_without_improvement_def)
  have "\<exists>b<Suc k. best_weights s = W (Suc b) \<and> (\<forall>i<Suc k. L b \<le> L i) \<and> (\<forall>i<b. L b < L i)"
    using b by (intro exI [of _ b]) auto
  with three n inv show ?thesis
    by (simp add: fit_post_def fit_inv_def)
qed

lemma fit_loop_post:
  fixes t :: "real list \<Rightarrow> 'w \<Rightarrow> 'w"
  assumes "fit_inv (weights_after t v w0) (loss_of_epoch t v w0) k s"
  shows "fit_post (weights_after t v w0) (loss_of_epoch t v w0) (k + r)
           (fit_loop t v (Some (3, True)) r s)"
  using assms
proof (induction r arbitrary: k s)
  case 0
  then show ?case by (auto simp: fit_inv_def fit_post_def)
next
  case (Suc r)
  let ?W = "weights_after t v w0" and ?L = "loss_of_epoch t v w0"
  from Suc.prems have h: "history s = map ?L [0..<k]" and ws: "weights s = ?W k"
    by (simp_all add: fit_inv_def)
  have w: "t (history s) (weights s) = ?W (Suc k)"
    by (simp add: h ws weights_after_Suc)
  have l: "v (?W (Suc k)) = ?L k"
    by (simp add: loss_of_epoch_def)
  show ?case
  proof (cases "improves (?L k) (best s)")
    case True
    then have "fit_loop t v (Some (3, True)) (Suc r) s =
        fit_loop t v (Some (3, True)) r
          (s\<lparr>weights := ?W (Suc k), epochs_run := epochs_run s + 1,
             history := history s @ [?L k], best := Some (?L k),
             best_weights := ?W (Suc k), wait := 0\<rparr>)"
      by (simp add: w l Let_def)
    with Suc.IH [OF fit_inv_improving [OF Suc.prems True]]
    show ?thesis by simp
  next
    case False
    show ?thesis
    proof (cases "wait s + 1 < 3")
      case True
      with False have "fit_loop t v (Some (3, True)) (Suc r) s =
          fit_loop t v (Some (3, True)) r
            (s\<lparr>weights := ?W (Suc k), epochs_run := epochs_run s + 1,
               history := history s @ [?L k], wait := wait s + 1\<rparr>)"
        by (simp add: w l Let_def)
      with Suc.IH [OF fit_inv_waiting [OF Suc.prems False True]]
      show ?thesis by simp
    next
      case nw: False
      with False have "fit_loop t v (Some (3, True)) (Suc r) s =
          s\<lparr>weights := best_weights s, epochs_run := epochs_run s + 1,
            history := history s @ [?L k], wait := wait s + 1, stopped := True\<rparr>"
        by (simp add: w l Let_def not_less)
      with fit_inv_stopping [OF Suc.prems False nw, of "k + Suc r"]
      show ?thesis by simp
    qed
  qed
qed


lemma fit_inv_initial:
  "fit_inv W L 0 \<lparr>weights = W 0, epochs_run = 0, history = [], best = None,
     best_weights = w, wait = 0, stopped = False\<rparr>"
  by (simp add: fit_inv_def)

lemma training_run_post:
  "fit_post (weights_after t v w0) (loss_of_epoch t v w0) EPOCHS (training_run t v w0)"
proof -
  have "early_stopping_of callbacks = Some (3, True)"
    by (simp add: callbacks_def)
  moreover have "weights_after t v w0 0 = w0"
    by (simp add: weights_after_def)
  ultimately show ?thesis
    using fit_loop_post [of t v w0 0 _ EPOCHS, OF fit_inv_initial [of _ _ w0]]
    by (simp add: training_run_def fit_def)
qed

text \<open>
  Claim C7. A training run goes through at most \<^verbatim>\<open>EPOCHS\<close> = 10 epochs. If in
  uninterrupted training one of the first 10 epochs is the third in a row whose validation
  loss does not improve, then the run halts right after the first such epoch, and the
  parameters it is left with are those after the best epoch: the first epoch whose
  validation loss is the least of all epochs run. If there is no such epoch, the run
  goes through all 10 epochs and is not halted.
\<close>

theorem training_early_stop:
  fixes train :: "real list \<Rightarrow> 'w \<Rightarrow> 'w" and val_loss :: "'w \<Rightarrow> real" and w0 :: 'w
  defines "s \<equiv> training_run train val_loss w0"
    and "L \<equiv> loss_of_epoch train val_loss w0"
    and "W \<equiv> weights_after train val_loss w0"
  shows "EPOCHS = 10 \<and> epochs_run s \<le> EPOCHS \<and> history s = map L [0..<epochs_run s] \<and>
         (\<forall>j<EPOCHS. three_without_improvement L j \<and>
              (\<forall>i<j. \<not> three_without_improvement L i) \<longrightarrow>
            stopped s \<and> epochs_run s = j + 1 \<and>
            (\<exists>b\<le>j. weights s = W (Suc b) \<and> (\<forall>i\<le>j. L b \<le> L i) \<and> (\<forall>i<b. L b < L i))) \<and>
         ((\<forall>j<EPOCHS. \<not> three_without_improvement L j) \<longrightarrow>
            \<not> stopped s \<and> epochs_run s = EPOCHS \<and> weights s = W EPOCHS)"
proof -
  have post: "fit_post W L EPOCHS s"
    unfolding s_def L_def W_def by (rule training_run_post)
  then have le: "epochs_run s \<le> EPOCHS" and h: "history s = map L [0..<epochs_run s]"
    and before: "\<forall>j<epochs_run s - 1. \<not> three_without_improvement L j"
    and running: "\<not> stopped s \<Longrightarrow>
        epochs_run s = EPOCHS \<and> weights s = W EPOCHS \<and>
        (\<forall>j<EPOCHS. \<not> three_without_improvement L j)"
    and halted: "stopped s \<Longrightarrow>
        0 < epochs_run s \<and> three_without_improvement L (epochs_run s - 1) \<and>
        (\<exists>b<epochs_run s. weights s = W (Suc b) \<and> (\<forall>i<epochs_run s. L b \<le> L i) \<and>
           (\<forall>i<b. L b < L i))"
    by (simp_all add: fit_post_def)
  have early: "stopped s \<and> epochs_run s = j + 1 \<and>
      (\<exists>b\<le>j. weights s = W (Suc b) \<and> (\<forall>i\<le>j. L b \<le> L i) \<and> (\<forall>i<b. L b < L i))"
    if j: "j < EPOCHS" and three: "three_without_improvement L j"
      and first: "\<forall>i<j. \<not> three_without_improvement L i" for j
  proof -
    from j three running have st: "stopped s" by blast
    from before three have "\<not> j < epochs_run s - 1" by blast
    moreover from halted [OF st] first have "\<not> epochs_run s - 1 < j" by blast
    moreover from halted [OF st] have "0 < epochs_run s" by blast
    ultimately have e: "epochs_run s = j + 1" by linarith
    from halted [OF st] obtain b where "b < epochs_run s" "weights s = W (Suc b)"
        "\<forall>i<epochs_run s. L b \<le> L i" "\<forall>i<b. L b < L i"
      by blast
    with e have "b \<le> j \<and> weights s = W (Suc b) \<and> (\<forall>i\<le>j. L b \<le> L i) \<and> (\<forall>i<b. L b < L i)"
      by (simp add: less_Suc_eq_le)
    with st e show ?thesis by blast
  qed
  have full: "\<not> stopped s \<and> epochs_run s = EPOCHS \<and> weights s = W EPOCHS"
    if none: "\<forall>j<EPOCHS. \<not> three_without_improvement L j"
  proof -
    have "\<not> stopped s"
    proof
      assume st: "stopped s"
      with halted le have "epochs_run s - 1 < EPOCHS" "three_without_improvement L (epochs_run s - 1)"
        by auto
      with none show False by blast
    qed
    with running show ?thesis by blast
  qed
  have "EPOCHS = 10" by (simp add: EPOCHS_def)
  with le h early full show ?thesis by blast
qed

lemma demo_weights: "weights_after demo_train v 0 k = k"
proof (induction k)
  case 0
  then show ?case by (simp add: weights_after_def)
next
  case (Suc k)
  then show ?case by (simp add: weights_after_Suc demo_train_def)
qed

lemma demo_loss: "loss_of_epoch demo_train demo_val_loss 0 j = demo_val_loss (Suc j)"
  by (simp add: loss_of_epoch_def demo_weights)

theorem training_early_stop_witness:
  "three_without_improvement (loss_of_epoch demo_train demo_val_loss 0) 4 \<and>
   stopped (training_run demo_train demo_val_loss 0) \<and>
   epochs_run (training_run demo_train demo_val_loss 0) = 5 \<and>
   history (training_run demo_train demo_val_loss 0) = [9 / 10, 5 / 10, 6 / 10, 7 / 10, 5 / 10] \<and>
   weights (training_run demo_train demo_val_loss 0) = 2"
proof -
  let ?L = "loss_of_epoch demo_train demo_val_loss 0"
  let ?s = "training_run demo_train demo_val_loss 0"
  have a: "three_without_improvement ?L 4 \<and> (\<forall>i<4. \<not> three_without_improvement ?L i)"
    by (simp add: three_without_improvement_def improves_at_def demo_loss demo_val_loss_def
        demo_losses_def eval_nat_numeral less_Suc_eq upt_rec)
  have j: "4 < EPOCHS"
    by (simp add: EPOCHS_def)
  from training_early_stop [of demo_train demo_val_loss 0] a j
  have b: "stopped ?s \<and> epochs_run ?s = 4 + 1"
    by blast
  have c: "history ?s = [9 / 10, 5 / 10, 6 / 10, 7 / 10, 5 / 10] \<and> weights ?s = 2"
    by (simp add: training_run_def fit_def EPOCHS_def callbacks_def eval_nat_numeral
        demo_train_def demo_val_loss_def demo_losses_def Let_def)
  from a b c show ?thesis by simp
qed

subsection \<open>The topology of the network\<close>

text \<open>
  Claim C6. Seen as the specification describes layers, the list of layers that
  \<^verbatim>\<open>create_model\<close> builds is exactly: four blocks of convolution with 3x3 kernels,
  batch normalisation and 2x2 max pooling, of widths 32, 64, 128 and 128 in this order,
  then flatten, dropout 0.5, dense 512 rectified-linear, dropout 0.3, dense 1 sigmoid.
\<close>

theorem create_model_topology:
  "map layer_view create_model = spec_topology"
  by (simp add: create_model_def spec_topology_def spec_block_def activation_name_def)

subsection \<open>Preprocessing\<close>

text \<open>
  Claim C8. \<^verbatim>\<open>preprocess_image\<close> has no input but the decoded file and the
  resampling to 150 by 150: two runs that open the same raster give the same result, the
  same tensor value for value, whatever else differs between them; in particular two
  runs on the same file in the same environment do. A run leaves no event behind, it
  fails exactly when the file cannot be opened as an image, and otherwise its tensor is
  a batch of one image, every channel of the resized raster divided by 255.
\<close>

theorem preprocess_image_deterministic:
  assumes "image_open_rgb E image_path = image_open_rgb E' image_path'"
    and "image_resize E (IMG_SIZE, IMG_SIZE) = image_resize E' (IMG_SIZE, IMG_SIZE)"
  shows "preprocess_image E image_path = preprocess_image E' image_path' \<and>
         snd (preprocess_image E image_path) = [] \<and>
         fst (preprocess_image E image_path) =
           (case image_open_rgb E image_path of
              Inl e \<Rightarrow> Inl e
            | Inr img0 \<Rightarrow>
                Inr ([normalize_pixels (image_resize E (IMG_SIZE, IMG_SIZE) img0)],
                     image_resize E (IMG_SIZE, IMG_SIZE) img0))"
  using assms
  by (simp add: preprocess_image_def run_defs Let_def split: sum.splits)

theorem preprocess_image_deterministic_witness:
  "preprocess_image demo_env ''scans/b.JPG'' = preprocess_image no_model_env ''xray.txt'' \<and>
   preprocess_image demo_env ''scans/b.JPG'' =
     (Inr ([[[[4 / 5, 4 / 5, 4 / 5]]]], [[(204, 204, 204)]]), [])"
proof -
  have a: "image_open_rgb demo_env ''scans/b.JPG'' = image_open_rgb no_model_env ''xray.txt''"
    by (simp add: no_model_env_def demo_env_def demo_images_def)
  have b: "image_resize demo_env (IMG_SIZE, IMG_SIZE) =
      image_resize no_model_env (IMG_SIZE, IMG_SIZE)"
    by (simp add: no_model_env_def demo_env_def)
  have c: "image_open_rgb demo_env ''scans/b.JPG'' = Inr [[(204, 204, 204)]]"
    by (simp add: demo_env_def demo_images_def)
  have d: "image_resize demo_env (IMG_SIZE, IMG_SIZE) [[(204, 204, 204)]] = [[(204, 204, 204)]]"
    by (simp add: demo_env_def)
  note t = preprocess_image_deterministic [OF a b]
  from t have e:
    "preprocess_image demo_env ''scans/b.JPG'' = preprocess_image no_model_env ''xray.txt''"
    by blast
  from t have s: "snd (preprocess_image demo_env ''scans/b.JPG'') = []"
    by blast
  from t have "fst (preprocess_image demo_env ''scans/b.JPG'') =
      (case image_open_rgb demo_env ''scans/b.JPG'' of
         Inl e \<Rightarrow> Inl e
       | Inr img0 \<Rightarrow>
           Inr ([normalize_pixels (image_resize demo_env (IMG_SIZE, IMG_SIZE) img0)],
                image_resize demo_env (IMG_SIZE, IMG_SIZE) img0))"
    by blast
  then have f: "fst (preprocess_image demo_env ''scans/b.JPG'') =
      Inr ([[[[4 / 5, 4 / 5, 4 / 5]]]], [[(204, 204, 204)]])"
    by (simp add: c d normalize_pixels_def)
  from f s have "preprocess_image demo_env ''scans/b.JPG'' =
      (Inr ([[[[4 / 5, 4 / 5, 4 / 5]]]], [[(204, 204, 204)]]), [])"
    by (cases "preprocess_image demo_env ''scans/b.JPG''") simp
  with e show ?thesis by blast
qed

end
